theory Spec2Isabelle
  imports Main "HOL-Library.Sublist"
begin

section \<open>The APK compiler service (server.js)\<close>

text \<open>
  The service is one Express handler, \<open>POST /compile-apk\<close>, and three helpers:
  \<open>createAndroidProject\<close>, \<open>compileAPK\<close> and \<open>createGradleWrapper\<close>. Everything they do
  is an effect on the outside world (the file system, the network, a child process, the
  HTTP response). The embedding makes the effects explicit: each function returns the list
  of effects it performed, in order, and the outside world is a record of oracles that
  says how each call ends. A promise that settles is a value of a sum type (\<open>Inl\<close> the
  message it is rejected with, \<open>Inr\<close> the value it is resolved with); \<open>None\<close> stands for a
  promise that never settles because an uncaught exception ended the process. Strings are
  \<open>char list\<close>, one \<open>char\<close> per JavaScript code unit.
\<close>

subsection \<open>JavaScript values\<close>

text \<open>
  \<open>req.body\<close> is the object \<open>express.json()\<close> parsed. The HTTP interface declares its four
  fields as strings, and a JSON object either has a key or not: a field is \<open>Undefined\<close>
  (absent) or a string, and the body is the function from the key to the field.
\<close>

datatype jsval = Undefined | Str string

text \<open>\<open>!v\<close>: \<open>undefined\<close> and the empty string are falsy, every other string is truthy.\<close>

fun falsy :: "jsval \<Rightarrow> bool" where
  "falsy Undefined = True"
| "falsy (Str s) = (s = [])"

text \<open>\<open>${v}\<close> in a template literal.\<close>

fun template :: "jsval \<Rightarrow> string" where
  "template Undefined = ''undefined''"
| "template (Str s) = s"

text \<open>Decimal rendering of numbers, as \<open>${code}\<close> and \<open>${response.statusCode}\<close> print them.\<close>

definition digit_char :: "nat \<Rightarrow> char" where
  "digit_char d = ''0123456789'' ! (d mod 10)"

fun show_nat :: "nat \<Rightarrow> string" where
  "show_nat n = (if n < 10 then [digit_char n] else show_nat (n div 10) @ [digit_char (n mod 10)])"

definition show_int :: "int \<Rightarrow> string" where
  "show_int i = (if i < 0 then ''-'' @ show_nat (nat (- i)) else show_nat (nat i))"

text \<open>The exit code of a child process is a number, or \<open>null\<close> when a signal ended it.\<close>

fun show_code :: "int option \<Rightarrow> string" where
  "show_code None = ''null''"
| "show_code (Some i) = show_int i"

subsection \<open>The package pattern\<close>

text \<open>
  \<open>manifest.match(/package="([^"]+)"/)\<close>. At one start position the pattern matches when
  the text begins with \<open>package="\<close>, goes on with at least one character that is not a
  double quote, and the longest such run is followed by a double quote (a shorter run is
  followed by a character of the run, so backtracking finds nothing else). The capture is
  that run. \<open>capture_at\<close> is the match at the head of its argument; \<open>match_package\<close> tries
  the start positions from left to right, as the regular-expression engine does, and
  returns the capture group of the first match.
\<close>

definition capture_at :: "string \<Rightarrow> string option" where
  \<open>capture_at s =
     (if prefix ''package="'' s then
        (let rest = drop 9 s; run = takeWhile (\<lambda>c. c \<noteq> CHR 0x22) rest in
         if run \<noteq> [] \<and> length run < length rest then Some run else None)
      else None)\<close>

fun match_package :: "string \<Rightarrow> string option" where
  "match_package [] = capture_at []"
| "match_package (c # cs) =
     (case capture_at (c # cs) of Some p \<Rightarrow> Some p | None \<Rightarrow> match_package cs)"

text \<open>\<open>packageMatch ? packageMatch[1] : 'com.apkforge.app'\<close>\<close>

definition packageName :: "string \<Rightarrow> string" where
  "packageName manifest =
     (case match_package manifest of Some p \<Rightarrow> p | None \<Rightarrow> ''com.apkforge.app'')"

text \<open>\<open>packageName.replace(/\./g, '/')\<close>\<close>

definition replace_dots :: "string \<Rightarrow> string" where
  "replace_dots s = map (\<lambda>c. if c = CHR ''.'' then CHR ''/'' else c) s"

definition packagePath :: "string \<Rightarrow> string" where
  "packagePath manifest = replace_dots (packageName manifest)"

subsection \<open>\<open>path.join\<close>\<close>

text \<open>
  The service runs on Linux (the Dockerfile starts from Ubuntu), so \<open>path.join\<close> is Node's
  POSIX one: the non-empty arguments are joined with \<open>/\<close> and the result is normalised.
  Normalising drops empty segments and \<open>.\<close>, and lets \<open>..\<close> remove the segment before it;
  a \<open>..\<close> with nothing to remove stays in a relative path and is dropped in an absolute one.
\<close>

fun split_path :: "string \<Rightarrow> string list" where
  "split_path [] = [[]]"
| "split_path (c # cs) =
     (if c = CHR ''/'' then [] # split_path cs
      else (case split_path cs of
              [] \<Rightarrow> [[c]]
            | seg # segs \<Rightarrow> (c # seg) # segs))"

definition norm_step :: "bool \<Rightarrow> string list \<Rightarrow> string \<Rightarrow> string list" where
  "norm_step allowAboveRoot res seg =
     (if seg = [] \<or> seg = ''.'' then res
      else if seg = ''..'' then
        (if res \<noteq> [] \<and> last res \<noteq> ''..'' then butlast res
         else if allowAboveRoot then res @ [''..'']
         else res)
      else res @ [seg])"

definition normalizeString :: "bool \<Rightarrow> string \<Rightarrow> string list" where
  "normalizeString allowAboveRoot p = foldl (norm_step allowAboveRoot) [] (split_path p)"

fun join_segs :: "string list \<Rightarrow> string" where
  "join_segs [] = []"
| "join_segs [s] = s"
| "join_segs (s # t # ss) = s @ ''/'' @ join_segs (t # ss)"

definition isAbsolute :: "string \<Rightarrow> bool" where
  "isAbsolute p = (p \<noteq> [] \<and> hd p = CHR ''/'')"

definition path_normalize :: "string \<Rightarrow> string" where
  "path_normalize p =
     (if p = [] then ''.''
      else
        (let trailingSeparator = (last p = CHR ''/'');
             res = join_segs (normalizeString (\<not> isAbsolute p) p)
         in if res = [] then
              (if isAbsolute p then ''/'' else if trailingSeparator then ''./'' else ''.'')
            else (if isAbsolute p then ''/'' else []) @ res
                 @ (if trailingSeparator then ''/'' else [])))"

definition path_join :: "string list \<Rightarrow> string" where
  "path_join args =
     (let joined = filter (\<lambda>a. a \<noteq> []) args
      in if joined = [] then ''.'' else path_normalize (join_segs joined))"

text \<open>
  \<open>path.basename\<close>: the last segment that is not empty (trailing separators are skipped),
  or the empty string when there is none.
\<close>

definition basename :: "string \<Rightarrow> string" where
  "basename p = (case rev (filter (\<lambda>s. s \<noteq> []) (split_path p)) of [] \<Rightarrow> [] | s # ss \<Rightarrow> s)"

text \<open>
  The segments a path resolves to, and what it is for a path to lie under a directory:
  both are absolute or both relative, the directory's segments are the first segments of
  the path, and the rest does not climb out again.
\<close>

definition path_segments :: "string \<Rightarrow> string list" where
  "path_segments p = normalizeString (\<not> isAbsolute p) p"

definition under_dir :: "string \<Rightarrow> string \<Rightarrow> bool" where
  "under_dir dir p =
     (isAbsolute p = isAbsolute dir \<and> prefix (path_segments dir) (path_segments p)
      \<and> ''..'' \<notin> set (drop (length (path_segments dir)) (path_segments p)))"


subsection \<open>Effects and the outside world\<close>

text \<open>
  What is written to a file: one of the request's values, or the fixed placeholder icon
  (\<open>Buffer.from(..., 'base64')\<close>, kept as its base64 text).
\<close>

datatype filedata = Data jsval | Buffer_base64 string

text \<open>
  The file-system calls that can throw or reject: \<open>fs.ensureDir\<close>, \<open>fs.writeFile\<close>,
  \<open>fs.writeFileSync\<close>, \<open>fs.chmodSync\<close>, \<open>fs.ensureDirSync\<close> and \<open>fs.remove\<close>.
\<close>

datatype fs_call =
    EnsureDir string
  | WriteFile string filedata
  | WriteFileSync string string
  | ChmodSync string string
  | EnsureDirSync string
  | Remove string

datatype client = Https | Http

text \<open>
  How one \<open>client.get\<close> ends: the call throws at once (Node does for a URL it cannot parse
  and for a protocol that is not the client's), the request emits \<open>error\<close>, or a response
  arrives with its status code, its \<open>Location\<close> header and, when the body is piped into the
  file, the event the file stream ends with.
\<close>

datatype stream_end = Finish | StreamError string

datatype http_result = Throws string | RequestError string | Response nat jsval stream_end

datatype chunk = Stdout string | Stderr string

text \<open>
  How \<open>spawn\<close> ends: the output chunks of the process arrive and then \<open>close\<close> with the
  exit code (\<open>null\<close> when a signal ended the process); or the process cannot be started
  and the child emits \<open>error\<close> (Node does so when the file is missing or not executable
  and when a limit on processes or files is reached); or \<open>spawn\<close> itself throws (Node
  does for every other error of the system call).
\<close>

datatype child_result =
    Exited "chunk list" "int option"
  | SpawnFailed string
  | SpawnThrows string

text \<open>
  The calls the handler makes on \<open>res\<close>: \<open>res.status(st).json(obj)\<close> and
  \<open>res.download(path, filename, callback)\<close>. What the client receives from such a call is
  a status, the name of the attachment (if the response is one) and the body.
\<close>

datatype response = Json nat "(string \<times> string) list" | Download string string

datatype payload = JsonBody "(string \<times> string) list" | FileBytes string

datatype delivered = Delivered nat "string option" payload

text \<open>
  The effects, as they appear in a trace: a file-system call that succeeded or failed with a
  message; \<open>client.get(url)\<close>; \<open>fs.createWriteStream(path)\<close> with the response piped into
  it; \<open>fs.unlink(path, () => {})\<close>, whose result is ignored; \<open>spawn\<close> with the command, the
  arguments, \<open>cwd\<close>, \<open>shell\<close> and \<open>GRADLE_OPTS\<close>; \<open>fs.existsSync(path)\<close>; \<open>console.log\<close>
  and \<open>console.error\<close> with their arguments (an error by its message); the call on
  \<open>res\<close>; \<open>setTimeout\<close> with the delay and the effects of the callback when it fires; and
  an exception that nothing catches, which ends the process.
\<close>

datatype event =
    FsOk fs_call
  | FsFailed fs_call string
  | HttpGet client string
  | CreateWriteStream string
  | Unlink string
  | Spawn string "string list" string bool string
  | ExistsSync string
  | ConsoleLog "string list"
  | ConsoleError "string list"
  | Respond response
  | SetTimeout nat "event list"
  | UncaughtException string

text \<open>
  The outside world of one request: the directory of the script, the platform, the
  identifier \<open>uuidv4()\<close> returns, the error (if any) each file-system call ends with, the
  message of the \<open>TypeError\<close> Node throws for a URL it cannot parse, the result of the
  \<open>n\<close>-th \<open>client.get\<close> of the download, how the Gradle process ends, which files
  \<open>fs.existsSync\<close> finds, and what sending a file to the client ends with: the error that
  \<open>res.download\<close> passes to its callback, or the bytes of the file, all delivered. A
  request or a process that never ends is outside the model, and so is a request with a
  \<open>Range\<close> or a conditional header.
\<close>

record world =
  dirname :: string
  platform :: string
  uuidv4 :: string
  fs_error :: "fs_call \<Rightarrow> string option"
  invalid_url :: "string \<Rightarrow> string"
  http_get :: "nat \<Rightarrow> string \<Rightarrow> http_result"
  child :: child_result
  existsSync :: "string \<Rightarrow> bool"
  sendFile :: "string \<Rightarrow> string + string"

text \<open>
  What the client receives. \<open>res.status(st).json(obj)\<close> sends the status and the object.
  \<open>res.download\<close> sets \<open>Content-Disposition\<close> to an attachment named by the base name of
  \<open>filename\<close> (the encoding of the name in the header is not modelled) and sends the file
  with Express's default status, 200; when sending fails the error goes to the callback and
  Express sends nothing more, so the client receives no complete response.
\<close>

fun deliver :: "world \<Rightarrow> response \<Rightarrow> delivered option" where
  "deliver w (Json st obj) = Some (Delivered st None (JsonBody obj))"
| "deliver w (Download file filename) =
     (case sendFile w file of
        Inl err \<Rightarrow> None
      | Inr bytes \<Rightarrow> Some (Delivered 200 (Some (basename filename)) (FileBytes bytes)))"

text \<open>\<open>const TEMP_DIR = path.join(__dirname, 'temp')\<close>\<close>

definition TEMP_DIR :: "world \<Rightarrow> string" where
  "TEMP_DIR w = path_join [dirname w, ''temp'']"

text \<open>
  A sequence of awaited (or synchronous) file-system calls: they run in order, and the
  first one that fails ends the sequence with its error.
\<close>

fun run_fs :: "world \<Rightarrow> fs_call list \<Rightarrow> event list \<times> (string + unit)" where
  "run_fs w [] = ([], Inr ())"
| "run_fs w (c # cs) =
     (case fs_error w c of
        Some err \<Rightarrow> ([FsFailed c err], Inl err)
      | None \<Rightarrow> (case run_fs w cs of (evs, r) \<Rightarrow> (FsOk c # evs, r)))"

subsection \<open>\<open>createAndroidProject\<close>\<close>

definition stringsXml :: "jsval \<Rightarrow> string" where
  \<open>stringsXml appName =
     ''<?xml version="1.0" encoding="utf-8"?>\<newline>'' @
     ''<resources>\<newline>'' @
     ''    <string name="app_name">'' @ template appName @ ''</string>\<newline>'' @
     ''</resources>''\<close>

definition projectBuildGradle :: string where
  \<open>projectBuildGradle =
     ''buildscript {\<newline>'' @
     ''    repositories {\<newline>'' @
     ''        google()\<newline>'' @
     ''        mavenCentral()\<newline>'' @
     ''    }\<newline>'' @
     ''    dependencies {\<newline>'' @
     ''        classpath 'com.android.tools.build:gradle:8.1.0'' @ [CHR 0x27] @ ''\<newline>'' @
     ''    }\<newline>'' @
     ''}\<newline>'' @
     ''\<newline>'' @
     ''allprojects {\<newline>'' @
     ''    repositories {\<newline>'' @
     ''        google()\<newline>'' @
     ''        mavenCentral()\<newline>'' @
     ''    }\<newline>'' @
     ''}\<newline>'' @
     ''\<newline>'' @
     ''task clean(type: Delete) {\<newline>'' @
     ''    delete rootProject.buildDir\<newline>'' @
     ''}''\<close>

definition appBuildGradle :: "string \<Rightarrow> string" where
  \<open>appBuildGradle pkg =
     ''plugins {\<newline>'' @
     ''    id 'com.android.application'' @ [CHR 0x27] @ ''\<newline>'' @
     ''}\<newline>'' @
     ''\<newline>'' @
     ''android {\<newline>'' @
     ''    namespace '' @ [CHR 0x27] @ pkg @ [CHR 0x27] @ ''\<newline>'' @
     ''    compileSdk 34\<newline>'' @
     ''\<newline>'' @
     ''    defaultConfig {\<newline>'' @
     ''        applicationId "'' @ pkg @ ''"\<newline>'' @
     ''        minSdk 21\<newline>'' @
     ''        targetSdk 34\<newline>'' @
     ''        versionCode 1\<newline>'' @
     ''        versionName "1.0"\<newline>'' @
     ''    }\<newline>'' @
     ''\<newline>'' @
     ''    buildTypes {\<newline>'' @
     ''        release {\<newline>'' @
     ''            minifyEnabled false\<newline>'' @
     ''            proguardFiles getDefaultProguardFile('proguard-android-optimize.txt'), 'proguard-rules.pro'' @ [CHR 0x27] @ ''\<newline>'' @
     ''        }\<newline>'' @
     ''    }\<newline>'' @
     ''    compileOptions {\<newline>'' @
     ''        sourceCompatibility JavaVersion.VERSION_1_8\<newline>'' @
     ''        targetCompatibility JavaVersion.VERSION_1_8\<newline>'' @
     ''    }\<newline>'' @
     ''}\<newline>'' @
     ''\<newline>'' @
     ''dependencies {\<newline>'' @
     ''    implementation 'androidx.appcompat:appcompat:1.6.1'' @ [CHR 0x27] @ ''\<newline>'' @
     ''    implementation 'com.google.android.material:material:1.9.0'' @ [CHR 0x27] @ ''\<newline>'' @
     ''    implementation 'androidx.constraintlayout:constraintlayout:2.1.4'' @ [CHR 0x27] @ ''\<newline>'' @
     ''}''\<close>

definition gradleProperties :: string where
  \<open>gradleProperties =
     ''org.gradle.jvmargs=-Xmx1024m -XX:MaxMetaspaceSize=512m -Dfile.encoding=UTF-8\<newline>'' @
     ''org.gradle.daemon=false\<newline>'' @
     ''org.gradle.parallel=false\<newline>'' @
     ''org.gradle.configureondemand=false\<newline>'' @
     ''android.useAndroidX=true\<newline>'' @
     ''android.enableJetifier=true\<newline>'' @
     ''android.builder.sdkDownload=false''\<close>

definition settingsGradle :: "jsval \<Rightarrow> string" where
  \<open>settingsGradle appName =
     ''pluginManagement {\<newline>'' @
     ''    repositories {\<newline>'' @
     ''        google()\<newline>'' @
     ''        mavenCentral()\<newline>'' @
     ''        gradlePluginPortal()\<newline>'' @
     ''    }\<newline>'' @
     ''}\<newline>'' @
     ''dependencyResolutionManagement {\<newline>'' @
     ''    repositoriesMode.set(RepositoriesMode.FAIL_ON_PROJECT_REPOS)\<newline>'' @
     ''    repositories {\<newline>'' @
     ''        google()\<newline>'' @
     ''        mavenCentral()\<newline>'' @
     ''    }\<newline>'' @
     ''}\<newline>'' @
     ''rootProject.name = "'' @ template appName @ ''"\<newline>'' @
     ''include ':app'' @ [CHR 0x27]\<close>

definition dirs :: "string \<Rightarrow> string list" where
  "dirs pkgPath =
     [''app/src/main/java/'' @ pkgPath,
      ''app/src/main/res/layout'',
      ''app/src/main/res/values'',
      ''app/src/main/res/drawable'',
      ''app/src/main/res/mipmap-hdpi'',
      ''app/src/main/res/mipmap-mdpi'',
      ''app/src/main/res/mipmap-xhdpi'',
      ''app/src/main/res/mipmap-xxhdpi'',
      ''app/src/main/res/mipmap-xxxhdpi'']"

definition iconDirs :: "string list" where
  "iconDirs = [''mipmap-hdpi'', ''mipmap-mdpi'', ''mipmap-xhdpi'', ''mipmap-xxhdpi'', ''mipmap-xxxhdpi'']"

definition icon_base64 :: string where
  "icon_base64 =
     ''iVBORw0KGgoAAAANSUhEUgAAAAEAAAABCAYAAAAfFcSJAAAADUlEQVR42mP8/5+hHgAHggJ/PchI7wAAAABJRU5ErkJggg==''"

text \<open>\<open>path.join(projectDir, `app/src/main/java/${packagePath}/MainActivity.java`)\<close>\<close>

definition mainActivityPath :: "string \<Rightarrow> string \<Rightarrow> string" where
  "mainActivityPath projectDir manifest =
     path_join [projectDir, ''app/src/main/java/'' @ packagePath manifest @ ''/MainActivity.java'']"

text \<open>The calls of \<open>createAndroidProject\<close>, in the order of the source.\<close>

definition project_calls :: "string \<Rightarrow> string \<Rightarrow> jsval \<Rightarrow> jsval \<Rightarrow> jsval \<Rightarrow> fs_call list" where
  "project_calls projectDir manifest mainActivity layout appName =
     map (\<lambda>dir. EnsureDir (path_join [projectDir, dir])) (dirs (packagePath manifest))
     @ [WriteFile (path_join [projectDir, ''app/src/main/AndroidManifest.xml'']) (Data (Str manifest)),
        WriteFile (mainActivityPath projectDir manifest) (Data mainActivity),
        WriteFile (path_join [projectDir, ''app/src/main/res/layout/activity_main.xml''])
          (Data layout),
        WriteFile (path_join [projectDir, ''app/src/main/res/values/strings.xml''])
          (Data (Str (stringsXml appName))),
        WriteFile (path_join [projectDir, ''build.gradle'']) (Data (Str projectBuildGradle)),
        WriteFile (path_join [projectDir, ''app/build.gradle''])
          (Data (Str (appBuildGradle (packageName manifest)))),
        WriteFile (path_join [projectDir, ''gradle.properties'']) (Data (Str gradleProperties)),
        WriteFile (path_join [projectDir, ''settings.gradle''])
          (Data (Str (settingsGradle appName)))]
     @ map (\<lambda>iconDir.
          WriteFile (path_join [projectDir, ''app/src/main/res/'' @ iconDir @ ''/ic_launcher.png''])
            (Buffer_base64 icon_base64))
        iconDirs"

text \<open>
  \<open>manifest.match\<close> on an absent manifest is a \<open>TypeError\<close>, which rejects the promise
  before any call is made.
\<close>

fun createAndroidProject ::
  "world \<Rightarrow> string \<Rightarrow> jsval \<Rightarrow> jsval \<Rightarrow> jsval \<Rightarrow> jsval \<Rightarrow> event list \<times> (string + unit)" where
  \<open>createAndroidProject w projectDir Undefined mainActivity layout appName =
     ([], Inl (''Cannot read properties of undefined (reading '' @ [CHR 0x27] @ ''match'' @ [CHR 0x27] @ '')''))\<close>
| \<open>createAndroidProject w projectDir (Str manifest) mainActivity layout appName =
     run_fs w (project_calls projectDir manifest mainActivity layout appName)\<close>

subsection \<open>\<open>createGradleWrapper\<close>\<close>

definition gradlewScript :: string where
  \<open>gradlewScript =
     ''#!/usr/bin/env sh\<newline>'' @
     ''\<newline>'' @
     ''##############################################################################\<newline>'' @
     ''##\<newline>'' @
     ''##  Gradle start up script for UN*X\<newline>'' @
     ''##\<newline>'' @
     ''##############################################################################\<newline>'' @
     ''\<newline>'' @
     ''# Resolve links: $0 may be a link\<newline>'' @
     ''PRG="$0"\<newline>'' @
     ''# Need this for relative symlinks.\<newline>'' @
     ''while [ -h "$PRG" ] ; do\<newline>'' @
     ''    ls=`ls -ld "$PRG"`\<newline>'' @
     ''    link=`expr "$ls" : '.*-> '' @ [CHR 0x5C] @ ''(.*'' @ [CHR 0x5C] @ '')$'`\<newline>'' @
     ''    if expr "$link" : '/.*' > /dev/null; then\<newline>'' @
     ''        PRG="$link"\<newline>'' @
     ''    else\<newline>'' @
     ''        PRG=`dirname "$PRG"`"/$link"\<newline>'' @
     ''    fi\<newline>'' @
     ''done\<newline>'' @
     ''SAVED="`pwd`"\<newline>'' @
     ''cd "`dirname '' @ [CHR 0x5C] @ ''"$PRG'' @ [CHR 0x5C] @ ''"`/" >/dev/null\<newline>'' @
     ''APP_HOME="`pwd -P`"\<newline>'' @
     ''cd $SAVED >/dev/null\<newline>'' @
     ''\<newline>'' @
     ''APP_NAME="Gradle"\<newline>'' @
     ''APP_BASE_NAME=`basename "$0"`\<newline>'' @
     ''\<newline>'' @
     ''# Use the maximum available, or set MAX_FD != -1 to use that value.\<newline>'' @
     ''MAX_FD="maximum"\<newline>'' @
     ''\<newline>'' @
     ''warn () {\<newline>'' @
     ''    echo "$*"\<newline>'' @
     ''}\<newline>'' @
     ''\<newline>'' @
     ''die () {\<newline>'' @
     ''    echo\<newline>'' @
     ''    echo "$*"\<newline>'' @
     ''    echo\<newline>'' @
     ''    exit 1\<newline>'' @
     ''}\<newline>'' @
     ''\<newline>'' @
     ''# OS specific support (must be 'true' or 'false').\<newline>'' @
     ''cygwin=false\<newline>'' @
     ''msys=false\<newline>'' @
     ''darwin=false\<newline>'' @
     ''nonstop=false\<newline>'' @
     ''case "`uname`" in\<newline>'' @
     ''  CYGWIN* )\<newline>'' @
     ''    cygwin=true\<newline>'' @
     ''    ;;\<newline>'' @
     ''  Darwin* )\<newline>'' @
     ''    darwin=true\<newline>'' @
     ''    ;;\<newline>'' @
     ''  MINGW* )\<newline>'' @
     ''    msys=true\<newline>'' @
     ''    ;;\<newline>'' @
     ''  NONSTOP* )\<newline>'' @
     ''    nonstop=true\<newline>'' @
     ''    ;;\<newline>'' @
     ''esac\<newline>'' @
     ''\<newline>'' @
     ''CLASSPATH=$APP_HOME/gradle/wrapper/gradle-wrapper.jar\<newline>'' @
     ''\<newline>'' @
     ''# Determine the Java command to use to start the JVM.\<newline>'' @
     ''if [ -n "$JAVA_HOME" ] ; then\<newline>'' @
     ''    if [ -x "$JAVA_HOME/jre/sh/java" ] ; then\<newline>'' @
     ''        # IBM's JDK on AIX uses strange locations for the executables\<newline>'' @
     ''        JAVACMD="$JAVA_HOME/jre/sh/java"\<newline>'' @
     ''    else\<newline>'' @
     ''        JAVACMD="$JAVA_HOME/bin/java"\<newline>'' @
     ''    fi\<newline>'' @
     ''    if [ ! -x "$JAVACMD" ] ; then\<newline>'' @
     ''        die "ERROR: JAVA_HOME is set to an invalid directory: $JAVA_HOME"\<newline>'' @
     ''    fi\<newline>'' @
     ''else\<newline>'' @
     ''    JAVACMD="java"\<newline>'' @
     ''    which java >/dev/null 2>&1 || die "ERROR: JAVA_HOME is not set and no 'java' command could be found in your PATH."\<newline>'' @
     ''fi\<newline>'' @
     ''\<newline>'' @
     ''# Increase the maximum file descriptors if we can.\<newline>'' @
     ''if [ "$cygwin" = "false" -a "$darwin" = "false" -a "$nonstop" = "false" ] ; then\<newline>'' @
     ''    MAX_FD_LIMIT=`ulimit -H -n`\<newline>'' @
     ''    if [ $? -eq 0 ] ; then\<newline>'' @
     ''        if [ "$MAX_FD" = "maximum" -o "$MAX_FD" = "max" ] ; then\<newline>'' @
     ''            MAX_FD="$MAX_FD_LIMIT"\<newline>'' @
     ''        fi\<newline>'' @
     ''        ulimit -n $MAX_FD\<newline>'' @
     ''        if [ $? -ne 0 ] ; then\<newline>'' @
     ''            warn "Could not set maximum file descriptor limit: $MAX_FD"\<newline>'' @
     ''        fi\<newline>'' @
     ''    else\<newline>'' @
     ''        warn "Could not query maximum file descriptor limit: $MAX_FD_LIMIT"\<newline>'' @
     ''    fi\<newline>'' @
     ''fi\<newline>'' @
     ''\<newline>'' @
     ''exec "$JAVACMD" '' @ [CHR 0x5C] @ ''\<newline>'' @
     ''    -classpath "$CLASSPATH" '' @ [CHR 0x5C] @ ''\<newline>'' @
     ''    org.gradle.wrapper.GradleWrapperMain '' @ [CHR 0x5C] @ ''\<newline>'' @
     ''    "$@"''\<close>

definition wrapperProperties :: string where
  \<open>wrapperProperties =
     ''distributionBase=GRADLE_USER_HOME\<newline>'' @
     ''distributionPath=wrapper/dists\<newline>'' @
     ''distributionUrl=https'' @ [CHR 0x5C] @ ''://services.gradle.org/distributions/gradle-8.2-bin.zip\<newline>'' @
     ''zipStoreBase=GRADLE_USER_HOME\<newline>'' @
     ''zipStorePath=wrapper/dists''\<close>

definition jarUrl :: string where
  "jarUrl = ''https://github.com/gradle/gradle/raw/v8.2.1/gradle/wrapper/gradle-wrapper.jar''"

text \<open>\<open>url.startsWith('https:') ? https : http\<close>\<close>

definition client_for :: "string \<Rightarrow> client" where
  "client_for url = (if prefix ''https:'' url then Https else Http)"

text \<open>
  \<open>client.get(url, callback)\<close>. A URL without a colon has no scheme: Node cannot parse it
  and throws \<open>TypeError [ERR_INVALID_URL]\<close> at once. For any other URL the world says how
  the call ends.
\<close>

definition client_get :: "world \<Rightarrow> nat \<Rightarrow> string \<Rightarrow> http_result" where
  "client_get w n url =
     (if CHR '':'' \<in> set url then http_get w n url else Throws (invalid_url w url))"

text \<open>
  \<open>downloadFile(url, redirectCount)\<close>. \<open>Some (Inr ())\<close> is \<open>resolve()\<close>, \<open>Some (Inl err)\<close> is
  \<open>reject\<close> with that message. The first call (\<open>redirectCount = 0\<close>) is made in the
  executor of the promise, where an exception of \<open>client.get\<close> rejects the promise. Every
  later call is made in the response callback of the request before it, where nothing
  catches an exception: the process ends and the promise never settles.
\<close>

function downloadFile ::
  "world \<Rightarrow> string \<Rightarrow> string \<Rightarrow> nat \<Rightarrow> event list \<times> (string + unit) option" where
  "downloadFile w gradleWrapperJar url redirectCount =
     (if redirectCount > 5 then ([], Some (Inl ''Too many redirects''))
      else
        (let client = client_for url in
         case client_get w redirectCount url of
           Throws err \<Rightarrow>
             (if redirectCount = 0 then ([HttpGet client url], Some (Inl err))
              else ([HttpGet client url, UncaughtException err], None))
         | RequestError err \<Rightarrow> ([HttpGet client url], Some (Inl err))
         | Response statusCode location stream \<Rightarrow>
             if statusCode = 200 then
               (case stream of
                  Finish \<Rightarrow>
                    ([HttpGet client url, CreateWriteStream gradleWrapperJar,
                      ConsoleLog [''Gradle wrapper jar downloaded successfully'']],
                     Some (Inr ()))
                | StreamError err \<Rightarrow>
                    ([HttpGet client url, CreateWriteStream gradleWrapperJar,
                      Unlink gradleWrapperJar], Some (Inl err)))
             else if statusCode = 302 \<or> statusCode = 301 then
               (if \<not> falsy location then
                  (case downloadFile w gradleWrapperJar (template location) (redirectCount + 1) of
                     (evs, r) \<Rightarrow>
                       (HttpGet client url
                        # ConsoleLog [''Following redirect to: '' @ template location] # evs, r))
                else ([HttpGet client url], Some (Inl ''Redirect without location header'')))
             else
               ([HttpGet client url],
                Some (Inl (''Failed to download gradle-wrapper.jar: '' @ show_nat statusCode)))))"
  by pat_completeness auto
termination
  by (relation "measure (\<lambda>(w, jar, url, redirectCount). 6 - redirectCount)") auto

declare downloadFile.simps [simp del]

text \<open>The synchronous calls that write the launcher script and the wrapper configuration.\<close>

definition wrapper_calls :: "string \<Rightarrow> fs_call list" where
  "wrapper_calls projectDir =
     [WriteFileSync (path_join [projectDir, ''gradlew'']) gradlewScript,
      ChmodSync (path_join [projectDir, ''gradlew'']) ''755'',
      EnsureDirSync (path_join [projectDir, ''gradle/wrapper'']),
      WriteFileSync (path_join [projectDir, ''gradle/wrapper/gradle-wrapper.properties''])
        wrapperProperties]"

definition gradleWrapperJar :: "string \<Rightarrow> string" where
  "gradleWrapperJar projectDir = path_join [projectDir, ''gradle/wrapper/gradle-wrapper.jar'']"

text \<open>
  A synchronous call that throws ends \<open>createGradleWrapper\<close> with that exception; after
  them the function returns the promise of the download.
\<close>

definition createGradleWrapper ::
  "world \<Rightarrow> string \<Rightarrow> event list \<times> (string + unit) option" where
  "createGradleWrapper w projectDir =
     (case run_fs w (wrapper_calls projectDir) of
        (evs, Inl err) \<Rightarrow> (evs, Some (Inl err))
      | (evs, Inr u) \<Rightarrow>
          (case downloadFile w (gradleWrapperJar projectDir) jarUrl 0 of
             (evs', r) \<Rightarrow> (evs @ evs', r)))"

subsection \<open>\<open>compileAPK\<close>\<close>

definition gradle_args :: "string list" where
  "gradle_args =
     [''assembleRelease'',
      ''-Dorg.gradle.daemon=false'',
      ''-Dorg.gradle.jvmargs=-Xmx512m -XX:MaxMetaspaceSize=256m -XX:MaxDirectMemorySize=64m'',
      ''--no-build-cache'',
      ''--no-configuration-cache'',
      ''--parallel=false'',
      ''--max-workers=1'']"

text \<open>The \<open>data\<close> listeners: each chunk is logged as it arrives.\<close>

fun chunk_event :: "chunk \<Rightarrow> event" where
  "chunk_event (Stdout s) = ConsoleLog [''Gradle output:'', s]"
| "chunk_event (Stderr s) = ConsoleError [''Gradle error:'', s]"

text \<open>\<open>errorOutput\<close> when the process closes: the standard-error chunks, in order.\<close>

fun errorOutput :: "chunk list \<Rightarrow> string" where
  "errorOutput [] = []"
| "errorOutput (Stdout s # cs) = errorOutput cs"
| "errorOutput (Stderr s # cs) = s @ errorOutput cs"

text \<open>\<open>path.join(projectDir, 'app/build/outputs/apk/release/app-release-unsigned.apk')\<close>\<close>

definition apkPath :: "string \<Rightarrow> string" where
  "apkPath projectDir =
     path_join [projectDir, ''app/build/outputs/apk/release/app-release-unsigned.apk'']"

text \<open>
  The promise of \<open>compileAPK\<close>. An exception of the set-up is caught and rejected with a
  prefix; a set-up that never settles leaves this promise unsettled too. Otherwise
  \<open>spawn\<close> is called, inside the same \<open>try\<close> block: an exception it throws is rejected
  with the same prefix. The \<open>close\<close> event of the process settles the promise. No listener
  is registered for the \<open>error\<close> event of the child: when the process cannot be started
  the event is an uncaught exception, and the promise never settles.
\<close>

definition compileAPK ::
  "world \<Rightarrow> string \<Rightarrow> jsval \<Rightarrow> event list \<times> (string + string) option" where
  "compileAPK w projectDir appName =
     (case createGradleWrapper w projectDir of
        (evs, None) \<Rightarrow> (evs, None)
      | (evs, Some (Inl setupError)) \<Rightarrow>
          (evs, Some (Inl (''Failed to setup Gradle wrapper: '' @ setupError)))
      | (evs, Some (Inr u)) \<Rightarrow>
          (let isWindows = (platform w = ''win32'');
               gradleCmd = (if isWindows then ''gradlew.bat'' else ''./gradlew'');
               spawned = Spawn gradleCmd gradle_args projectDir isWindows
                           ''-Xmx512m -XX:MaxMetaspaceSize=256m''
           in case child w of
                SpawnFailed err \<Rightarrow> (evs @ [spawned, UncaughtException err], None)
              | SpawnThrows err \<Rightarrow>
                  (evs @ [spawned], Some (Inl (''Failed to setup Gradle wrapper: '' @ err)))
              | Exited chunks code \<Rightarrow>
                  (let outputs = map chunk_event chunks
                   in if code = Some 0 then
                        (if existsSync w (apkPath projectDir) then
                           (evs @ [spawned] @ outputs @ [ExistsSync (apkPath projectDir)],
                            Some (Inr (apkPath projectDir)))
                         else
                           (evs @ [spawned] @ outputs @ [ExistsSync (apkPath projectDir)],
                            Some (Inl ''APK file not found after build'')))
                      else
                        (evs @ [spawned] @ outputs,
                         Some (Inl (''Gradle build failed with code '' @ show_code code @ '': ''
                                    @ errorOutput chunks))))))"

subsection \<open>The handler of \<open>POST /compile-apk\<close>\<close>

text \<open>\<open>fs.remove(projectDir).catch(console.error)\<close>\<close>

definition remove_workspace :: "world \<Rightarrow> string \<Rightarrow> event list" where
  "remove_workspace w projectDir =
     (case fs_error w (Remove projectDir) of
        None \<Rightarrow> [FsOk (Remove projectDir)]
      | Some err \<Rightarrow> [FsFailed (Remove projectDir) err, ConsoleError [err]])"

text \<open>The \<open>catch (error)\<close> block of the handler.\<close>

definition catch_block :: "world \<Rightarrow> string \<Rightarrow> string \<Rightarrow> event list" where
  "catch_block w projectDir message =
     [ConsoleError [''Compilation error:'', message],
      Respond (Json 500 [(''error'', ''APK compilation failed''), (''details'', message)])]
     @ remove_workspace w projectDir"

text \<open>
  The callback of \<open>res.download\<close>, called when sending the file has ended: an error is
  logged, then the removal is scheduled.
\<close>

definition download_callback :: "world \<Rightarrow> string \<Rightarrow> string \<Rightarrow> event list" where
  "download_callback w projectDir apk =
     (case sendFile w apk of
        Inl err \<Rightarrow> [ConsoleError [''Download error:'', err]]
      | Inr bytes \<Rightarrow> [])
     @ [SetTimeout 5000 (remove_workspace w projectDir)]"

text \<open>
  \<open>appName = 'GeneratedApp'\<close> in the destructuring: the default applies when the field is
  \<open>undefined\<close>, and only then.
\<close>

definition appName_of :: "(string \<Rightarrow> jsval) \<Rightarrow> jsval" where
  "appName_of body =
     (case body ''appName'' of Undefined \<Rightarrow> Str ''GeneratedApp'' | Str s \<Rightarrow> Str s)"

text \<open>\<open>projectDir = path.join(TEMP_DIR, projectId)\<close> with \<open>projectId = uuidv4()\<close>\<close>

definition projectDir_of :: "world \<Rightarrow> string" where
  "projectDir_of w = path_join [TEMP_DIR w, uuidv4 w]"

text \<open>
  The two awaited calls of the \<open>try\<close> block: its result is the exception that leaves the
  block (\<open>Inl\<close>, with the message) or the path \<open>compileAPK\<close> resolved with, and \<open>None\<close> when
  the awaited promise never settles.
\<close>

definition try_body ::
  "world \<Rightarrow> string \<Rightarrow> jsval \<Rightarrow> jsval \<Rightarrow> jsval \<Rightarrow> jsval
     \<Rightarrow> event list \<times> (string + string) option" where
  "try_body w projectDir manifest mainActivity layout appName =
     (case createAndroidProject w projectDir manifest mainActivity layout appName of
        (evs1, Inl message) \<Rightarrow> (evs1, Some (Inl message))
      | (evs1, Inr u) \<Rightarrow>
          (case compileAPK w projectDir appName of (evs2, r) \<Rightarrow> (evs1 @ evs2, r)))"

text \<open>
  The handler. When the awaited promise never settles the handler never resumes: nothing is
  sent and nothing is removed.
\<close>

definition post_compile_apk :: "world \<Rightarrow> (string \<Rightarrow> jsval) \<Rightarrow> event list" where
  "post_compile_apk w body =
     (let manifest = body ''manifest'';
          mainActivity = body ''mainActivity'';
          layout = body ''layout'';
          appName = appName_of body
      in if falsy manifest \<or> falsy mainActivity \<or> falsy layout then
           [Respond (Json 400
              [(''error'', ''Missing required files: manifest, mainActivity, or layout'')])]
         else
           (let projectDir = projectDir_of w
            in case try_body w projectDir manifest mainActivity layout appName of
                 (evs, None) \<Rightarrow> evs
               | (evs, Some (Inl message)) \<Rightarrow> evs @ catch_block w projectDir message
               | (evs, Some (Inr apk)) \<Rightarrow>
                   evs @ [Respond (Download apk (template appName @ ''.apk''))]
                   @ download_callback w projectDir apk))"

subsection \<open>Kinds of events\<close>

fun is_respond :: "event \<Rightarrow> bool" where
  "is_respond (Respond r) = True"
| "is_respond e = False"

fun is_spawn :: "event \<Rightarrow> bool" where
  "is_spawn (Spawn cmd args cwd shell opts) = True"
| "is_spawn e = False"

fun is_get :: "event \<Rightarrow> bool" where
  "is_get (HttpGet c url) = True"
| "is_get e = False"

text \<open>The calls only the build invoker makes: the synchronous ones.\<close>

fun is_sync :: "fs_call \<Rightarrow> bool" where
  "is_sync (WriteFileSync p d) = True"
| "is_sync (ChmodSync p m) = True"
| "is_sync (EnsureDirSync p) = True"
| "is_sync c = False"

text \<open>The effects of the build invoker (\<open>compileAPK\<close> and \<open>createGradleWrapper\<close>).\<close>

fun is_invoker :: "event \<Rightarrow> bool" where
  "is_invoker (FsOk c) = is_sync c"
| "is_invoker (FsFailed c err) = is_sync c"
| "is_invoker (HttpGet c url) = True"
| "is_invoker (CreateWriteStream p) = True"
| "is_invoker (Unlink p) = True"
| "is_invoker (Spawn cmd args cwd shell opts) = True"
| "is_invoker (ExistsSync p) = True"
| "is_invoker (UncaughtException err) = True"
| "is_invoker e = False"

text \<open>The removal of a workspace, at once or scheduled.\<close>

fun is_cleanup :: "event \<Rightarrow> bool" where
  "is_cleanup (FsOk (Remove p)) = True"
| "is_cleanup (FsFailed (Remove p) err) = True"
| "is_cleanup (SetTimeout ms evs) = True"
| "is_cleanup e = False"

subsection \<open>The pattern and the normal form of paths, as predicates\<close>

text \<open>
  \<open>pattern_at m i p\<close>: the text \<open>package="p"\<close>, with \<open>p\<close> non-empty and free of double
  quotes, stands in \<open>m\<close> at position \<open>i\<close>.
\<close>

definition pattern_at :: "string \<Rightarrow> nat \<Rightarrow> string \<Rightarrow> bool" where
  \<open>pattern_at m i p =
     (i \<le> length m \<and> p \<noteq> [] \<and> CHR 0x22 \<notin> set p
      \<and> prefix (''package="'' @ p @ ''"'') (drop i m))\<close>

text \<open>
  The segment lists that normalising produces: no empty segment, no \<open>.\<close>, no separator
  inside a segment, and \<open>..\<close> only at the front of a relative path.
\<close>

definition nf :: "bool \<Rightarrow> string list \<Rightarrow> bool" where
  "nf al segs =
     ((\<forall>s \<in> set segs. s \<noteq> [] \<and> s \<noteq> ''.'' \<and> CHR ''/'' \<notin> set s)
      \<and> ''..'' \<notin> set (dropWhile (\<lambda>s. s = ''..'') segs)
      \<and> (\<not> al \<longrightarrow> ''..'' \<notin> set segs))"

subsection \<open>A sample request and a sample world\<close>

text \<open>
  The request of the end-to-end scenario and a world in which nothing fails: every
  file-system call succeeds, the wrapper binary arrives with status 200, the build exits
  with code 0, the artifact is found and its bytes reach the client.
\<close>

definition demo_world :: world where
  "demo_world =
     \<lparr>dirname = ''/app'', platform = ''linux'',
      uuidv4 = ''110ec58a-a0f2-4ac4-8393-c866d813b8d1'',
      fs_error = (\<lambda>c. None),
      invalid_url = (\<lambda>url. ''Invalid URL: '' @ url),
      http_get = (\<lambda>n url. Response 200 Undefined Finish),
      child = Exited [Stdout ''BUILD SUCCESSFUL''] (Some 0),
      existsSync = (\<lambda>p. True),
      sendFile = (\<lambda>p. Inr ''PK-artifact-bytes'')\<rparr>"

definition demo_body :: "string \<Rightarrow> jsval" where
  \<open>demo_body k =
     (if k = ''manifest'' then Str ''<manifest package="com.example.foo"/>''
      else if k = ''mainActivity'' then Str ''class MainActivity {}''
      else if k = ''layout'' then Str ''<LinearLayout/>''
      else if k = ''appName'' then Str ''DemoApp''
      else Undefined)\<close>

section \<open>Properties\<close>

subsection \<open>Facts about \<open>path.join\<close>\<close>

lemma split_path_nonempty: "split_path s \<noteq> []"
  by (induction s) (auto split: list.splits)

lemma split_path_append:
  "split_path (a @ CHR ''/'' # b) = split_path a @ split_path b"
proof (induction a)
  case Nil
  show ?case by simp
next
  case (Cons c a)
  obtain seg segs where "split_path a = seg # segs"
    using split_path_nonempty [of a] by (cases "split_path a") auto
  with Cons show ?case by simp
qed

lemma split_path_no_slash: "seg \<in> set (split_path s) \<Longrightarrow> CHR ''/'' \<notin> set seg"
proof (induction s arbitrary: seg)
  case Nil
  then show ?case by simp
next
  case (Cons c s)
  obtain x xs where sp: "split_path s = x # xs"
    using split_path_nonempty [of s] by (cases "split_path s") auto
  show ?case
  proof (cases "c = CHR ''/''")
    case True
    with Cons show ?thesis by auto
  next
    case False
    with Cons.prems sp have "seg = c # x \<or> seg \<in> set xs" by simp
    with Cons.IH sp False show ?thesis by auto
  qed
qed

lemma split_path_single: "CHR ''/'' \<notin> set s \<Longrightarrow> split_path s = [s]"
  by (induction s) auto

lemma join_segs_split_path: "join_segs (split_path s) = s"
proof (induction s)
  case Nil
  show ?case by simp
next
  case (Cons c s)
  obtain x xs where sp: "split_path s = x # xs"
    using split_path_nonempty [of s] by (cases "split_path s") auto
  show ?case
  proof (cases "c = CHR ''/''")
    case True
    with Cons sp show ?thesis by simp
  next
    case False
    with Cons sp show ?thesis by (cases xs) auto
  qed
qed

lemma split_path_join_segs:
  "segs \<noteq> [] \<Longrightarrow> \<forall>s \<in> set segs. CHR ''/'' \<notin> set s \<Longrightarrow> split_path (join_segs segs) = segs"
proof (induction segs rule: join_segs.induct)
  case 1
  then show ?case by simp
next
  case (2 s)
  then show ?case by (simp add: split_path_single)
next
  case (3 s t ss)
  then have "split_path (s @ CHR ''/'' # join_segs (t # ss)) = split_path s @ (t # ss)"
    by (simp only: split_path_append) simp
  with 3 show ?case by (simp add: split_path_single)
qed

lemma join_segs_append:
  "join_segs (A @ B) =
     (if A = [] then join_segs B else if B = [] then join_segs A
      else join_segs A @ ''/'' @ join_segs B)"
  by (induction A rule: join_segs.induct) (auto split: list.splits simp: neq_Nil_conv)

lemma foldl_norm_step_clean:
  "''..'' \<notin> set B \<Longrightarrow>
   foldl (norm_step al) A B = A @ filter (\<lambda>s. s \<noteq> [] \<and> s \<noteq> ''.'') B"
  by (induction B arbitrary: A) (auto simp: norm_step_def)

lemma dropWhile_eq_snoc_all:
  "d \<notin> set (dropWhile (\<lambda>s. s = d) (A @ [d])) \<Longrightarrow> \<forall>s \<in> set A. s = d"
proof (induction A)
  case Nil
  show ?case by simp
next
  case (Cons a A)
  show ?case
  proof (cases "a = d")
    case True
    with Cons.prems have "d \<notin> set (dropWhile (\<lambda>s. s = d) (A @ [d]))" by simp
    then have "\<forall>s \<in> set A. s = d" by (rule Cons.IH)
    with True show ?thesis by simp
  next
    case False
    then have "dropWhile (\<lambda>s. s = d) ((a # A) @ [d]) = a # A @ [d]" by simp
    with Cons.prems show ?thesis by simp
  qed
qed

lemma set_dropWhile_butlast: "set (dropWhile P A) \<subseteq> set (dropWhile P (A @ [b]))"
  by (induction A) auto

lemma set_dropWhile_snoc: "set (dropWhile P (A @ [b])) \<subseteq> insert b (set (dropWhile P A))"
  by (induction A) auto

lemma nf_Nil: "nf al []"
  by (simp add: nf_def)

lemma nf_snoc:
  assumes "nf al (A @ [b])"
  shows "nf al A"
proof -
  have "set A \<subseteq> set (A @ [b])" by auto
  moreover note set_dropWhile_butlast [of "\<lambda>s. s = ''..''" A b]
  ultimately show ?thesis
    using assms unfolding nf_def by blast
qed

lemma nf_norm_step_id:
  assumes "nf al (A @ [b])"
  shows "norm_step al A b = A @ [b]"
proof (cases "b = ''..''")
  case True
  with assms have all: "\<forall>s \<in> set A. s = ''..''"
    unfolding nf_def using dropWhile_eq_snoc_all [of "''..''" A] by blast
  from True assms have al unfolding nf_def by auto
  from all have "A = [] \<or> last A = ''..''" by (cases A rule: rev_cases) auto
  with True \<open>al\<close> show ?thesis unfolding norm_step_def by auto
next
  case False
  from assms have "b \<noteq> []" "b \<noteq> ''.''" unfolding nf_def by auto
  with False show ?thesis unfolding norm_step_def by simp
qed

lemma nf_append: "nf al (A @ B) \<Longrightarrow> nf al A"
proof (induction B rule: rev_induct)
  case Nil
  then show ?case by simp
next
  case (snoc x xs)
  from snoc.prems have "nf al ((A @ xs) @ [x])" by simp
  then have "nf al (A @ xs)" by (rule nf_snoc)
  then show ?case by (rule snoc.IH)
qed

lemma foldl_norm_step_nf: "nf al (A @ B) \<Longrightarrow> foldl (norm_step al) A B = A @ B"
proof (induction B arbitrary: A)
  case Nil
  show ?case by simp
next
  case (Cons b B)
  from Cons.prems have whole: "nf al ((A @ [b]) @ B)" by simp
  then have "nf al (A @ [b])" by (rule nf_append)
  then have "norm_step al A b = A @ [b]" by (rule nf_norm_step_id)
  with Cons.IH [OF whole] show ?case by simp
qed

lemma nf_norm_step:
  assumes "nf al res" and "CHR ''/'' \<notin> set seg"
  shows "nf al (norm_step al res seg)"
proof -
  consider (skip) "seg = [] \<or> seg = ''.''"
    | (pop) "seg = ''..''" "res \<noteq> []" "last res \<noteq> ''..''"
    | (up) "seg = ''..''" "res = [] \<or> last res = ''..''" al
    | (stay) "seg = ''..''" "res = [] \<or> last res = ''..''" "\<not> al"
    | (push) "seg \<noteq> []" "seg \<noteq> ''.''" "seg \<noteq> ''..''"
    by blast
  then show ?thesis
  proof cases
    case skip
    then have "norm_step al res seg = res" unfolding norm_step_def by auto
    with assms show ?thesis by simp
  next
    case pop
    then have "norm_step al res seg = butlast res" by (simp add: norm_step_def)
    moreover have "nf al (butlast res)"
      using assms(1) pop(2) nf_snoc [of al "butlast res" "last res"] by simp
    ultimately show ?thesis by simp
  next
    case up
    then have eq: "norm_step al res seg = res @ [''..'']" unfolding norm_step_def by auto
    have "dropWhile (\<lambda>s. s = ''..'') res = []"
    proof (rule ccontr)
      assume ne: "dropWhile (\<lambda>s. s = ''..'') res \<noteq> []"
      then have "res \<noteq> []" by auto
      with up have "last res = ''..''" by simp
      moreover have "last res = last (dropWhile (\<lambda>s. s = ''..'') res)"
        using ne by (metis last_appendR takeWhile_dropWhile_id)
      ultimately have "''..'' \<in> set (dropWhile (\<lambda>s. s = ''..'') res)"
        using ne last_in_set by metis
      with assms(1) show False by (simp add: nf_def)
    qed
    then have all: "\<forall>s \<in> set res. s = ''..''" by simp
    then have dw: "dropWhile (\<lambda>s. s = ''..'') (res @ [''..'']) = []" by simp
    have "\<forall>s \<in> set (res @ [''..'']). s \<noteq> [] \<and> s \<noteq> ''.'' \<and> CHR ''/'' \<notin> set s"
      using all by auto
    with dw \<open>al\<close> have "nf al (res @ [''..''])" unfolding nf_def by simp
    with eq show ?thesis by simp
  next
    case stay
    then have "norm_step al res seg = res" unfolding norm_step_def by auto
    with assms show ?thesis by simp
  next
    case push
    then have eq: "norm_step al res seg = res @ [seg]" by (simp add: norm_step_def)
    note sub = set_dropWhile_snoc [of "\<lambda>s. s = ''..''" res seg]
    have "''..'' \<notin> set (dropWhile (\<lambda>s. s = ''..'') (res @ [seg]))"
      using sub assms(1) push(3) unfolding nf_def by blast
    moreover have "\<forall>s \<in> set (res @ [seg]). s \<noteq> [] \<and> s \<noteq> ''.'' \<and> CHR ''/'' \<notin> set s"
      using assms push unfolding nf_def by auto
    moreover have "\<not> al \<longrightarrow> ''..'' \<notin> set (res @ [seg])"
      using assms(1) push(3) unfolding nf_def by auto
    ultimately have "nf al (res @ [seg])" unfolding nf_def by blast
    with eq show ?thesis by simp
  qed
qed

lemma nf_foldl:
  "nf al res \<Longrightarrow> \<forall>s \<in> set segs. CHR ''/'' \<notin> set s \<Longrightarrow> nf al (foldl (norm_step al) res segs)"
  by (induction segs arbitrary: res) (simp_all add: nf_norm_step)

lemma nf_normalizeString: "nf al (normalizeString al p)"
  unfolding normalizeString_def
  by (rule nf_foldl) (simp_all add: nf_Nil split_path_no_slash)

lemma join_segs_eq_Nil:
  "\<forall>s \<in> set segs. s \<noteq> [] \<Longrightarrow> join_segs segs = [] \<longleftrightarrow> segs = []"
  by (induction segs rule: join_segs.induct) simp_all

lemma hd_join_segs: "segs \<noteq> [] \<Longrightarrow> hd segs \<noteq> [] \<Longrightarrow> hd (join_segs segs) = hd (hd segs)"
  by (induction segs rule: join_segs.induct) simp_all

lemma norm_step_empty: "norm_step al res [] = res"
  by (simp add: norm_step_def)

lemma normalizeString_lead: "normalizeString al (CHR ''/'' # p) = normalizeString al p"
  by (simp add: normalizeString_def norm_step_empty)

lemma normalizeString_join2:
  "normalizeString al (dir @ CHR ''/'' # rel)
     = foldl (norm_step al) (normalizeString al dir) (split_path rel)"
  by (simp add: normalizeString_def split_path_append)

lemma normalizeString_trail: "normalizeString al (p @ ''/'') = normalizeString al p"
  using normalizeString_join2 [of al p "[]"] by (simp add: norm_step_empty)

lemma normalizeString_join_segs:
  assumes "nf al segs" and "segs \<noteq> []"
  shows "normalizeString al (join_segs segs) = segs"
proof -
  from assms(1) have "\<forall>s \<in> set segs. CHR ''/'' \<notin> set s" by (simp add: nf_def)
  with assms(2) have "split_path (join_segs segs) = segs" by (rule split_path_join_segs)
  moreover from assms(1) have "foldl (norm_step al) [] segs = [] @ segs"
    by (intro foldl_norm_step_nf) simp
  ultimately show ?thesis by (simp add: normalizeString_def)
qed

lemma normalizeString_dot: "normalizeString al ''.'' = []"
  by (simp add: normalizeString_def norm_step_def)

lemma normalizeString_Nil: "normalizeString al [] = []"
  by (simp add: normalizeString_def norm_step_def)

lemma normalize_segments:
  "normalizeString (\<not> isAbsolute p) (path_normalize p) = normalizeString (\<not> isAbsolute p) p"
proof (cases "p = []")
  case True
  then show ?thesis by (simp add: path_normalize_def normalizeString_dot normalizeString_Nil)
next
  case False
  define al where "al = (\<not> isAbsolute p)"
  define segs where "segs = normalizeString al p"
  have nf: "nf al segs" unfolding segs_def by (rule nf_normalizeString)
  then have ne: "\<forall>s \<in> set segs. s \<noteq> []" by (simp add: nf_def)
  show ?thesis
  proof (cases "segs = []")
    case True
    then have "join_segs segs = []" by simp
    with False have "path_normalize p = ''/'' \<or> path_normalize p = ''./'' \<or> path_normalize p = ''.''"
      unfolding path_normalize_def Let_def segs_def al_def by simp
    moreover have "normalizeString al ''/'' = []" "normalizeString al ''./'' = []"
      "normalizeString al ''.'' = []"
      by (simp_all add: normalizeString_def norm_step_def)
    ultimately show ?thesis using True unfolding segs_def al_def by auto
  next
    case segs: False
    with ne have res: "join_segs segs \<noteq> []" by (simp add: join_segs_eq_Nil)
    have mid: "normalizeString al (join_segs segs) = segs"
      using nf segs by (rule normalizeString_join_segs)
    have "normalizeString al (path_normalize p) = segs"
    proof -
      have "path_normalize p = (if isAbsolute p then ''/'' else []) @ join_segs segs
                          @ (if last p = CHR ''/'' then ''/'' else [])"
        using False res unfolding path_normalize_def Let_def segs_def al_def by simp
      then show ?thesis
        using mid normalizeString_trail [of al "join_segs segs"]
          normalizeString_lead [of al "join_segs segs"]
          normalizeString_lead [of al "join_segs segs @ ''/''"]
        by (simp split: if_splits)
    qed
    then show ?thesis unfolding segs_def al_def by simp
  qed
qed

lemma isAbsolute_normalize: "isAbsolute (path_normalize p) = isAbsolute p"
proof (cases "p = []")
  case True
  then show ?thesis by (simp add: path_normalize_def isAbsolute_def)
next
  case False
  define segs where "segs = normalizeString (\<not> isAbsolute p) p"
  have nf: "nf (\<not> isAbsolute p) segs" unfolding segs_def by (rule nf_normalizeString)
  show ?thesis
  proof (cases "isAbsolute p")
    case True
    with False show ?thesis unfolding path_normalize_def Let_def by (simp add: isAbsolute_def)
  next
    case rel: False
    show ?thesis
    proof (cases "segs = []")
      case True
      with False rel show ?thesis
        unfolding path_normalize_def Let_def segs_def by (simp add: isAbsolute_def)
    next
      case segs: False
      from nf have all: "\<forall>s \<in> set segs. s \<noteq> [] \<and> CHR ''/'' \<notin> set s" by (simp add: nf_def)
      with segs have "hd segs \<noteq> []" "CHR ''/'' \<notin> set (hd segs)" by simp_all
      then have "hd (hd segs) \<noteq> CHR ''/''" by (cases "hd segs") auto
      with segs \<open>hd segs \<noteq> []\<close> have hd: "hd (join_segs segs) \<noteq> CHR ''/''"
        by (simp add: hd_join_segs)
      from all segs have ne: "join_segs segs \<noteq> []" by (simp add: join_segs_eq_Nil)
      have "path_normalize p = join_segs segs @ (if last p = CHR ''/'' then ''/'' else [])"
        using False rel ne unfolding path_normalize_def Let_def segs_def by simp
      with hd ne rel show ?thesis by (simp add: isAbsolute_def)
    qed
  qed
qed

lemma path_segments_normalize: "path_segments (path_normalize p) = path_segments p"
  by (simp add: path_segments_def isAbsolute_normalize normalize_segments)

lemma split_path_subset: "seg \<in> set (split_path s) \<Longrightarrow> set seg \<subseteq> set s"
proof (induction s arbitrary: seg)
  case Nil
  then show ?case by simp
next
  case (Cons c s)
  obtain x xs where sp: "split_path s = x # xs"
    using split_path_nonempty [of s] by (cases "split_path s") auto
  show ?case
  proof (cases "c = CHR ''/''")
    case True
    with Cons.prems have "seg = [] \<or> seg \<in> set (split_path s)" by simp
    with Cons.IH show ?thesis by auto
  next
    case False
    with Cons.prems sp have "seg = c # x \<or> seg \<in> set xs" by simp
    with Cons.IH [of x] Cons.IH [of seg] sp show ?thesis by auto
  qed
qed

lemma replace_dots_no_dot: "CHR ''.'' \<notin> set (replace_dots s)"
  by (induction s) (simp_all add: replace_dots_def)

lemma split_replace_dots_no_dotdot: "''..'' \<notin> set (split_path (replace_dots s))"
proof
  assume "''..'' \<in> set (split_path (replace_dots s))"
  then have "set ''..'' \<subseteq> set (replace_dots s)" by (rule split_path_subset)
  then show False using replace_dots_no_dot [of s] by simp
qed

lemma under_dir_join:
  assumes clean: "''..'' \<notin> set (split_path rel)" and ne: "rel \<noteq> []"
    and rel: "\<not> isAbsolute rel"
  shows "under_dir dir (path_join [dir, rel])"
proof (cases "dir = []")
  case True
  with ne have pj: "path_join [dir, rel] = path_normalize rel" by (simp add: path_join_def)
  have "path_segments (path_normalize rel) = path_segments rel"
    by (rule path_segments_normalize)
  also have "\<dots> = normalizeString True rel"
    using rel by (simp add: path_segments_def)
  also have "\<dots> = filter (\<lambda>s. s \<noteq> [] \<and> s \<noteq> ''.'') (split_path rel)"
    unfolding normalizeString_def using foldl_norm_step_clean [OF clean, of True "[]"] by simp
  finally have segs: "path_segments (path_normalize rel)
                        = filter (\<lambda>s. s \<noteq> [] \<and> s \<noteq> ''.'') (split_path rel)" .
  have "path_segments dir = []" using True by (simp add: path_segments_def normalizeString_Nil)
  moreover have "isAbsolute (path_normalize rel) = isAbsolute dir"
  proof -
    have "isAbsolute (path_normalize rel) = isAbsolute rel" by (rule isAbsolute_normalize)
    moreover have "\<not> isAbsolute dir" using True by (simp add: isAbsolute_def)
    ultimately show ?thesis using rel by simp
  qed
  moreover have "''..'' \<notin> set (path_segments (path_normalize rel))"
    using clean unfolding segs by simp
  ultimately show ?thesis unfolding under_dir_def pj by simp
next
  case False
  define al where "al = (\<not> isAbsolute dir)"
  have abs: "isAbsolute (dir @ CHR ''/'' # rel) = isAbsolute dir"
    using False by (simp add: isAbsolute_def)
  from False ne have pj: "path_join [dir, rel] = path_normalize (dir @ CHR ''/'' # rel)"
    by (simp add: path_join_def)
  have "path_segments (path_normalize (dir @ CHR ''/'' # rel))
          = path_segments (dir @ CHR ''/'' # rel)"
    by (rule path_segments_normalize)
  also have "\<dots> = normalizeString al (dir @ CHR ''/'' # rel)"
    by (simp add: path_segments_def abs al_def)
  also have "\<dots> = foldl (norm_step al) (normalizeString al dir) (split_path rel)"
    by (rule normalizeString_join2)
  also have "\<dots> = normalizeString al dir @ filter (\<lambda>s. s \<noteq> [] \<and> s \<noteq> ''.'') (split_path rel)"
    using clean by (rule foldl_norm_step_clean)
  finally have segs: "path_segments (path_normalize (dir @ CHR ''/'' # rel))
      = path_segments dir @ filter (\<lambda>s. s \<noteq> [] \<and> s \<noteq> ''.'') (split_path rel)"
    by (simp add: path_segments_def al_def)
  have "''..'' \<notin> set (filter (\<lambda>s. s \<noteq> [] \<and> s \<noteq> ''.'') (split_path rel))"
    using clean by simp
  then show ?thesis
    unfolding under_dir_def pj segs by (simp add: isAbsolute_normalize abs)
qed

lemma path_join_suffix:
  assumes clean: "\<forall>s \<in> set (split_path rel). s \<noteq> [] \<and> s \<noteq> ''.'' \<and> s \<noteq> ''..''"
  shows "suffix rel (path_join [dir, rel])"
proof -
  have ne: "rel \<noteq> []" using clean by (cases rel) auto
  have notabs: "\<not> isAbsolute rel"
  proof
    assume "isAbsolute rel"
    then obtain r where "rel = CHR ''/'' # r" by (cases rel) (auto simp: isAbsolute_def)
    then have "[] \<in> set (split_path rel)" by simp
    with clean show False by blast
  qed
  have last: "last rel \<noteq> CHR ''/''"
  proof
    assume "last rel = CHR ''/''"
    with ne have "rel = butlast rel @ CHR ''/'' # []" by (metis append_butlast_last_id)
    then have "split_path rel = split_path (butlast rel) @ split_path []"
      by (metis split_path_append)
    then have "[] \<in> set (split_path rel)" by simp
    with clean show False by blast
  qed
  have filt: "filter (\<lambda>s. s \<noteq> [] \<and> s \<noteq> ''.'') (split_path rel) = split_path rel"
    using clean by (simp add: filter_id_conv)
  have dd: "''..'' \<notin> set (split_path rel)" using clean by blast
  show ?thesis
  proof (cases "dir = []")
    case True
    have "normalizeString True rel = split_path rel"
      unfolding normalizeString_def using foldl_norm_step_clean [OF dd, of True "[]"] filt
      by simp
    then have "path_normalize rel = rel"
      using ne notabs last unfolding path_normalize_def Let_def
      by (simp add: join_segs_split_path)
    with True ne show ?thesis by (simp add: path_join_def)
  next
    case False
    define al where "al = (\<not> isAbsolute dir)"
    define joined where "joined = dir @ CHR ''/'' # rel"
    have abs: "isAbsolute joined = isAbsolute dir"
      using False by (simp add: isAbsolute_def joined_def)
    have jl: "last joined = last rel" "joined \<noteq> []" using ne by (simp_all add: joined_def)
    have "normalizeString al joined
            = foldl (norm_step al) (normalizeString al dir) (split_path rel)"
      unfolding joined_def by (rule normalizeString_join2)
    also have "\<dots> = normalizeString al dir @ split_path rel"
      using foldl_norm_step_clean [OF dd] filt by simp
    finally have segs: "normalizeString al joined = normalizeString al dir @ split_path rel" .
    have "join_segs (normalizeString al dir @ split_path rel)
            = (if normalizeString al dir = [] then rel
               else join_segs (normalizeString al dir) @ ''/'' @ rel)"
      by (simp add: join_segs_append split_path_nonempty join_segs_split_path)
    then obtain pre where res: "join_segs (normalizeString al joined) = pre @ rel"
      unfolding segs by (cases "normalizeString al dir = []") auto
    with ne have "join_segs (normalizeString al joined) \<noteq> []" by simp
    then have "path_normalize joined = (if isAbsolute joined then ''/'' else []) @ pre @ rel"
      using jl last res unfolding path_normalize_def Let_def al_def abs by simp
    moreover have "path_join [dir, rel] = path_normalize joined"
      using False ne by (simp add: path_join_def joined_def)
    ultimately show ?thesis by (simp add: suffix_def)
  qed
qed

subsection \<open>Facts about the package pattern\<close>

lemma capture_at_Some_iff:
  \<open>capture_at s = Some p \<longleftrightarrow>
     p \<noteq> [] \<and> CHR 0x22 \<notin> set p \<and> prefix (''package="'' @ p @ ''"'') s\<close>
proof
  assume cap: "capture_at s = Some p"
  define rest where "rest = drop 9 s"
  define run where "run = takeWhile (\<lambda>c. c \<noteq> CHR 0x22) rest"
  from cap have pre: \<open>prefix ''package="'' s\<close>
    unfolding capture_at_def by (simp split: if_splits)
  then have s: \<open>s = ''package="'' @ rest\<close>
    unfolding rest_def by (auto simp: prefix_def)
  from cap pre have run: "run \<noteq> []" "length run < length rest" "p = run"
    unfolding capture_at_def Let_def rest_def run_def by (simp_all split: if_splits)
  have split: "rest = run @ dropWhile (\<lambda>c. c \<noteq> CHR 0x22) rest"
    unfolding run_def by simp
  have ne: "dropWhile (\<lambda>c. c \<noteq> CHR 0x22) rest \<noteq> []"
  proof
    assume "dropWhile (\<lambda>c. c \<noteq> CHR 0x22) rest = []"
    with split have "rest = run" by simp
    with run(2) show False by simp
  qed
  then have "hd (dropWhile (\<lambda>c. c \<noteq> CHR 0x22) rest) = CHR 0x22"
    using hd_dropWhile [of "\<lambda>c. c \<noteq> CHR 0x22" rest] by simp
  with ne obtain post where "dropWhile (\<lambda>c. c \<noteq> CHR 0x22) rest = CHR 0x22 # post"
    by (cases "dropWhile (\<lambda>c. c \<noteq> CHR 0x22) rest") auto
  with split have "rest = run @ CHR 0x22 # post" by simp
  with s have \<open>s = (''package="'' @ run @ ''"'') @ post\<close> by simp
  then have \<open>prefix (''package="'' @ run @ ''"'') s\<close> unfolding prefix_def by blast
  moreover have "CHR 0x22 \<notin> set run"
    unfolding run_def using set_takeWhileD [of "CHR 0x22" "\<lambda>c. c \<noteq> CHR 0x22" rest] by blast
  ultimately show \<open>p \<noteq> [] \<and> CHR 0x22 \<notin> set p \<and> prefix (''package="'' @ p @ ''"'') s\<close>
    using run by simp
next
  assume r: \<open>p \<noteq> [] \<and> CHR 0x22 \<notin> set p \<and> prefix (''package="'' @ p @ ''"'') s\<close>
  then obtain post where s: \<open>s = ''package="'' @ p @ CHR 0x22 # post\<close>
    by (auto simp: prefix_def)
  then have pre: \<open>prefix ''package="'' s\<close> by (simp add: prefix_def)
  from s have rest: "drop 9 s = p @ CHR 0x22 # post" by simp
  from r have "\<forall>x \<in> set p. x \<noteq> CHR 0x22" by blast
  then have "takeWhile (\<lambda>c. c \<noteq> CHR 0x22) (p @ CHR 0x22 # post) = p"
    by (simp add: takeWhile_tail)
  with r pre rest show "capture_at s = Some p"
    unfolding capture_at_def Let_def by simp
qed

lemma capture_at_pattern:
  "i \<le> length m \<Longrightarrow> capture_at (drop i m) = Some p \<longleftrightarrow> pattern_at m i p"
  by (simp add: capture_at_Some_iff pattern_at_def)

lemma capture_at_Nil: "capture_at [] = None"
  by (simp add: capture_at_def)

lemma pattern_at_unique: "pattern_at m i p \<Longrightarrow> pattern_at m i q \<Longrightarrow> p = q"
proof -
  assume p: "pattern_at m i p" and q: "pattern_at m i q"
  then have "i \<le> length m" by (simp add: pattern_at_def)
  with p q have "capture_at (drop i m) = Some p" "capture_at (drop i m) = Some q"
    by (simp_all add: capture_at_pattern)
  then show "p = q" by simp
qed

lemma match_package_first:
  "match_package m = Some p \<longleftrightarrow>
     (\<exists>i \<le> length m. capture_at (drop i m) = Some p \<and> (\<forall>j < i. capture_at (drop j m) = None))"
proof (induction m)
  case Nil
  show ?case by (simp add: capture_at_Nil)
next
  case (Cons c cs)
  show ?case
  proof (cases "capture_at (c # cs)")
    case (Some q)
    have "(\<exists>i \<le> length (c # cs). capture_at (drop i (c # cs)) = Some p
             \<and> (\<forall>j < i. capture_at (drop j (c # cs)) = None)) \<longleftrightarrow> q = p"
    proof
      assume "\<exists>i \<le> length (c # cs). capture_at (drop i (c # cs)) = Some p
                \<and> (\<forall>j < i. capture_at (drop j (c # cs)) = None)"
      then obtain i where i: "capture_at (drop i (c # cs)) = Some p"
        "\<forall>j < i. capture_at (drop j (c # cs)) = None" by blast
      have "i = 0"
      proof (rule ccontr)
        assume "i \<noteq> 0"
        with i(2) have "capture_at (drop 0 (c # cs)) = None" by blast
        with Some show False by simp
      qed
      with i(1) Some show "q = p" by simp
    next
      assume "q = p"
      with Some have "capture_at (drop 0 (c # cs)) = Some p
                      \<and> (\<forall>j < 0. capture_at (drop j (c # cs)) = None)" by simp
      then show "\<exists>i \<le> length (c # cs). capture_at (drop i (c # cs)) = Some p
                   \<and> (\<forall>j < i. capture_at (drop j (c # cs)) = None)" by blast
    qed
    with Some show ?thesis by simp
  next
    case None
    have "(\<exists>i \<le> length (c # cs). capture_at (drop i (c # cs)) = Some p
             \<and> (\<forall>j < i. capture_at (drop j (c # cs)) = None))
          \<longleftrightarrow> (\<exists>i \<le> length cs. capture_at (drop i cs) = Some p
             \<and> (\<forall>j < i. capture_at (drop j cs) = None))"
    proof
      assume "\<exists>i \<le> length (c # cs). capture_at (drop i (c # cs)) = Some p
                \<and> (\<forall>j < i. capture_at (drop j (c # cs)) = None)"
      then obtain i where i: "i \<le> length (c # cs)" "capture_at (drop i (c # cs)) = Some p"
        "\<forall>j < i. capture_at (drop j (c # cs)) = None" by blast
      have "i \<noteq> 0"
      proof
        assume "i = 0"
        with i(2) None show False by simp
      qed
      then obtain k where k: "i = Suc k" by (cases i) auto
      with i(1,2) have "k \<le> length cs" "capture_at (drop k cs) = Some p" by simp_all
      moreover have "\<forall>j < k. capture_at (drop j cs) = None"
      proof (intro allI impI)
        fix j assume "j < k"
        then have "Suc j < i" using k by simp
        with i(3) have "capture_at (drop (Suc j) (c # cs)) = None" by blast
        then show "capture_at (drop j cs) = None" by simp
      qed
      ultimately show "\<exists>i \<le> length cs. capture_at (drop i cs) = Some p
                         \<and> (\<forall>j < i. capture_at (drop j cs) = None)" by blast
    next
      assume "\<exists>i \<le> length cs. capture_at (drop i cs) = Some p
                \<and> (\<forall>j < i. capture_at (drop j cs) = None)"
      then obtain k where k: "k \<le> length cs" "capture_at (drop k cs) = Some p"
        "\<forall>j < k. capture_at (drop j cs) = None" by blast
      have "\<forall>j < Suc k. capture_at (drop j (c # cs)) = None"
      proof (intro allI impI)
        fix j assume j: "j < Suc k"
        show "capture_at (drop j (c # cs)) = None"
        proof (cases j)
          case 0
          with None show ?thesis by simp
        next
          case (Suc j')
          with j k(3) show ?thesis by simp
        qed
      qed
      moreover from k have "Suc k \<le> length (c # cs)" "capture_at (drop (Suc k) (c # cs)) = Some p"
        by simp_all
      ultimately show "\<exists>i \<le> length (c # cs). capture_at (drop i (c # cs)) = Some p
                         \<and> (\<forall>j < i. capture_at (drop j (c # cs)) = None)" by blast
    qed
    with None Cons.IH show ?thesis by simp
  qed
qed

lemma match_package_Some_iff:
  "match_package m = Some p \<longleftrightarrow>
     (\<exists>i. pattern_at m i p \<and> (\<forall>j < i. \<forall>q. \<not> pattern_at m j q))"
proof
  assume "match_package m = Some p"
  then obtain i where i: "i \<le> length m" "capture_at (drop i m) = Some p"
    "\<forall>j < i. capture_at (drop j m) = None"
    unfolding match_package_first by blast
  have "\<forall>j < i. \<forall>q. \<not> pattern_at m j q"
  proof (intro allI impI)
    fix j q assume "j < i"
    with i have "j \<le> length m" "capture_at (drop j m) = None" by simp_all
    then show "\<not> pattern_at m j q" using capture_at_pattern [of j m q] by simp
  qed
  with i show "\<exists>i. pattern_at m i p \<and> (\<forall>j < i. \<forall>q. \<not> pattern_at m j q)"
    using capture_at_pattern [of i m p] by blast
next
  assume "\<exists>i. pattern_at m i p \<and> (\<forall>j < i. \<forall>q. \<not> pattern_at m j q)"
  then obtain i where i: "pattern_at m i p" "\<forall>j < i. \<forall>q. \<not> pattern_at m j q" by blast
  then have le: "i \<le> length m" by (simp add: pattern_at_def)
  have "\<forall>j < i. capture_at (drop j m) = None"
  proof (intro allI impI)
    fix j assume j: "j < i"
    with le have "j \<le> length m" by simp
    with i(2) j show "capture_at (drop j m) = None"
      using capture_at_pattern [of j m] by (cases "capture_at (drop j m)") auto
  qed
  with i(1) le show "match_package m = Some p"
    unfolding match_package_first using capture_at_pattern [of i m p] by blast
qed

lemma match_package_None_iff:
  "match_package m = None \<longleftrightarrow> (\<forall>i q. \<not> pattern_at m i q)"
proof
  assume none: "match_package m = None"
  show "\<forall>i q. \<not> pattern_at m i q"
  proof (intro allI notI)
    fix i q assume "pattern_at m i q"
    then have "\<exists>k. (\<exists>q. pattern_at m k q)" by blast
    then obtain k where k: "\<exists>q. pattern_at m k q" "\<forall>j < k. \<not> (\<exists>q. pattern_at m j q)"
      using exists_least_iff [of "\<lambda>k. \<exists>q. pattern_at m k q"] by blast
    then obtain p where "pattern_at m k p" by blast
    with k(2) have "match_package m = Some p" unfolding match_package_Some_iff by blast
    with none show False by simp
  qed
next
  assume "\<forall>i q. \<not> pattern_at m i q"
  then show "match_package m = None"
    using match_package_Some_iff [of m] by (cases "match_package m") auto
qed

lemma run_fs_all_ok:
  "\<forall>c \<in> set cs. fs_error w c = None \<Longrightarrow> run_fs w cs = (map FsOk cs, Inr ())"
  by (induction cs) simp_all

lemma run_fs_Inr:
  "run_fs w cs = (evs, Inr u) \<Longrightarrow> evs = map FsOk cs \<and> (\<forall>c \<in> set cs. fs_error w c = None)"
proof (induction cs arbitrary: evs)
  case Nil
  then show ?case by simp
next
  case (Cons c cs)
  show ?case
  proof (cases "fs_error w c")
    case (Some err)
    with Cons.prems show ?thesis by simp
  next
    case None
    obtain evs' r where rf: "run_fs w cs = (evs', r)" by (cases "run_fs w cs")
    with None Cons.prems have "evs = FsOk c # evs'" "r = Inr u" by simp_all
    with rf Cons.IH [of evs'] None show ?thesis by simp
  qed
qed

lemma run_fs_Inl:
  "run_fs w cs = (evs, Inl e) \<Longrightarrow>
     \<exists>before c after. cs = before @ c # after \<and> evs = map FsOk before @ [FsFailed c e]
        \<and> fs_error w c = Some e \<and> (\<forall>d \<in> set before. fs_error w d = None)"
proof (induction cs arbitrary: evs)
  case Nil
  then show ?case by simp
next
  case (Cons c cs)
  show ?case
  proof (cases "fs_error w c")
    case (Some err)
    with Cons.prems have "evs = [FsFailed c e]" "err = e" by auto
    with Some have "c # cs = [] @ c # cs \<and> evs = map FsOk [] @ [FsFailed c e]
        \<and> fs_error w c = Some e \<and> (\<forall>d \<in> set []. fs_error w d = None)" by simp
    then show ?thesis by blast
  next
    case None
    obtain evs' r where rf: "run_fs w cs = (evs', r)" by (cases "run_fs w cs")
    with None Cons.prems have ev: "evs = FsOk c # evs'" and "r = Inl e" by simp_all
    with rf Cons.IH [of evs'] obtain before d after where
      IH: "cs = before @ d # after" "evs' = map FsOk before @ [FsFailed d e]"
        "fs_error w d = Some e" "\<forall>x \<in> set before. fs_error w x = None" by blast
    with None ev have "c # cs = (c # before) @ d # after
        \<and> evs = map FsOk (c # before) @ [FsFailed d e]
        \<and> fs_error w d = Some e \<and> (\<forall>x \<in> set (c # before). fs_error w x = None)" by simp
    then show ?thesis by blast
  qed
qed

lemma run_fs_fails:
  "c \<in> set cs \<Longrightarrow> fs_error w c = Some e \<Longrightarrow> \<exists>e'. snd (run_fs w cs) = Inl e'"
proof -
  assume c: "c \<in> set cs" "fs_error w c = Some e"
  obtain evs r where rf: "run_fs w cs = (evs, r)" by (cases "run_fs w cs")
  show ?thesis
  proof (cases r)
    case (Inl e')
    with rf show ?thesis by simp
  next
    case (Inr u)
    with rf c run_fs_Inr [of w cs evs u] show ?thesis by auto
  qed
qed

lemma run_fs_events:
  "run_fs w cs = (evs, r) \<Longrightarrow> \<forall>ev \<in> set evs. \<exists>c \<in> set cs. ev = FsOk c \<or> (\<exists>e. ev = FsFailed c e)"
proof (cases r)
  case (Inl e)
  assume "run_fs w cs = (evs, r)"
  with Inl run_fs_Inl [of w cs evs e] show ?thesis by auto
next
  case (Inr u)
  assume "run_fs w cs = (evs, r)"
  with Inr run_fs_Inr [of w cs evs u] show ?thesis by auto
qed

lemma wrapper_calls_sync: "c \<in> set (wrapper_calls projectDir) \<Longrightarrow> is_sync c"
  by (auto simp: wrapper_calls_def)

lemma project_calls_async:
  "c \<in> set (project_calls projectDir m a l n) \<Longrightarrow> \<not> is_sync c"
  by (auto simp: project_calls_def)

lemma chunk_event_no_respond: "\<not> is_respond (chunk_event c)"
  by (cases c) simp_all

lemma remove_workspace_cases:
  "remove_workspace w projectDir = [FsOk (Remove projectDir)]
   \<or> (\<exists>err. remove_workspace w projectDir = [FsFailed (Remove projectDir) err, ConsoleError [err]])"
  by (cases "fs_error w (Remove projectDir)") (simp_all add: remove_workspace_def)

lemma errorOutput_concat:
  "errorOutput cs = concat (map (\<lambda>c. case c of Stdout s \<Rightarrow> [] | Stderr s \<Rightarrow> s) cs)"
  by (induction cs rule: errorOutput.induct) simp_all

lemma createAndroidProject_ok:
  assumes "\<forall>c. fs_error w c = None"
  shows "createAndroidProject w projectDir (Str m) a l n
           = (map FsOk (project_calls projectDir m a l n), Inr ())"
  using assms by (simp add: run_fs_all_ok)

lemma project_calls_explicit:
  "project_calls pd m a l n =

           [EnsureDir (path_join [pd, ''app/src/main/java/'' @ packagePath m]),
            EnsureDir (path_join [pd, ''app/src/main/res/layout'']),
            EnsureDir (path_join [pd, ''app/src/main/res/values'']),
            EnsureDir (path_join [pd, ''app/src/main/res/drawable'']),
            EnsureDir (path_join [pd, ''app/src/main/res/mipmap-hdpi'']),
            EnsureDir (path_join [pd, ''app/src/main/res/mipmap-mdpi'']),
            EnsureDir (path_join [pd, ''app/src/main/res/mipmap-xhdpi'']),
            EnsureDir (path_join [pd, ''app/src/main/res/mipmap-xxhdpi'']),
            EnsureDir (path_join [pd, ''app/src/main/res/mipmap-xxxhdpi'']),
            WriteFile (path_join [pd, ''app/src/main/AndroidManifest.xml'']) (Data (Str m)),
            WriteFile (path_join [pd, ''app/src/main/java/'' @ packagePath m @ ''/MainActivity.java''])
              (Data a),
            WriteFile (path_join [pd, ''app/src/main/res/layout/activity_main.xml''])
              (Data l),
            WriteFile (path_join [pd, ''app/src/main/res/values/strings.xml''])
              (Data (Str (stringsXml n))),
            WriteFile (path_join [pd, ''build.gradle'']) (Data (Str projectBuildGradle)),
            WriteFile (path_join [pd, ''app/build.gradle''])
              (Data (Str (appBuildGradle (packageName m)))),
            WriteFile (path_join [pd, ''gradle.properties'']) (Data (Str gradleProperties)),
            WriteFile (path_join [pd, ''settings.gradle''])
              (Data (Str (settingsGradle n))),
            WriteFile (path_join [pd, ''app/src/main/res/mipmap-hdpi/ic_launcher.png''])
              (Buffer_base64 icon_base64),
            WriteFile (path_join [pd, ''app/src/main/res/mipmap-mdpi/ic_launcher.png''])
              (Buffer_base64 icon_base64),
            WriteFile (path_join [pd, ''app/src/main/res/mipmap-xhdpi/ic_launcher.png''])
              (Buffer_base64 icon_base64),
            WriteFile (path_join [pd, ''app/src/main/res/mipmap-xxhdpi/ic_launcher.png''])
              (Buffer_base64 icon_base64),
            WriteFile (path_join [pd, ''app/src/main/res/mipmap-xxxhdpi/ic_launcher.png''])
              (Buffer_base64 icon_base64)]"
  by (simp add: project_calls_def dirs_def iconDirs_def mainActivityPath_def)

lemma project_calls_quiet: "\<not> list_ex is_invoker (map FsOk (project_calls pd m a l n))"
  using project_calls_async [of _ pd m a l n] by (auto simp: list_ex_iff)

lemma run_fs_quiet:
  assumes "ev \<in> set (fst (run_fs w cs))"
  shows "\<not> is_respond ev \<and> \<not> is_spawn ev \<and> (\<exists>c \<in> set cs. ev = FsOk c \<or> (\<exists>e. ev = FsFailed c e))"
proof -
  obtain evs r where rf: "run_fs w cs = (evs, r)" by (cases "run_fs w cs")
  with assms run_fs_events [OF rf] show ?thesis by auto
qed

lemma remove_workspace_events:
  "ev \<in> set (remove_workspace w projectDir) \<Longrightarrow> \<not> is_respond ev \<and> \<not> is_invoker ev"
  using remove_workspace_cases [of w projectDir] by auto

lemma filter_respond_remove: "filter is_respond (remove_workspace w projectDir) = []"
  using remove_workspace_events [of _ w projectDir] by (simp add: filter_empty_conv)

lemma catch_block_events:
  "ev \<in> set (catch_block w projectDir message) \<Longrightarrow> \<not> is_invoker ev"
  using remove_workspace_events [of ev w projectDir] by (auto simp: catch_block_def)

lemma project_calls_no_remove:
  "c \<in> set (project_calls projectDir m a l n) \<Longrightarrow> \<not> is_cleanup (FsOk c) \<and> \<not> is_cleanup (FsFailed c e)"
  by (auto simp: project_calls_def)

lemma wrapper_calls_no_remove:
  "c \<in> set (wrapper_calls projectDir) \<Longrightarrow> \<not> is_cleanup (FsOk c) \<and> \<not> is_cleanup (FsFailed c e)"
  by (auto simp: wrapper_calls_def)

lemma createAndroidProject_events:
  assumes "ev \<in> set (fst (createAndroidProject w projectDir manifest a l n))"
  shows "\<not> is_respond ev \<and> \<not> is_invoker ev \<and> \<not> is_cleanup ev"
proof (cases manifest)
  case Undefined
  with assms show ?thesis by simp
next
  case (Str m)
  with assms have "ev \<in> set (fst (run_fs w (project_calls projectDir m a l n)))" by simp
  then obtain c where c: "c \<in> set (project_calls projectDir m a l n)"
    "ev = FsOk c \<or> (\<exists>e. ev = FsFailed c e)"
    using run_fs_quiet by blast
  with project_calls_async [OF c(1)] project_calls_no_remove [OF c(1)] show ?thesis by auto
qed

subsection \<open>Facts about the download\<close>

lemma client_get_colon: "CHR '':'' \<in> set url \<Longrightarrow> client_get w n url = http_get w n url"
  by (simp add: client_get_def)

lemma client_get_no_colon:
  "CHR '':'' \<notin> set url \<Longrightarrow> client_get w n url = Throws (invalid_url w url)"
  by (simp add: client_get_def)

lemma jarUrl_colon: "CHR '':'' \<in> set jarUrl"
  by (simp add: jarUrl_def)

lemma downloadFile_too_many:
  "n > 5 \<Longrightarrow> downloadFile w jar url n = ([], Some (Inl ''Too many redirects''))"
  by (subst downloadFile.simps) simp

lemma downloadFile_throws_first:
  "client_get w 0 url = Throws err \<Longrightarrow>
   downloadFile w jar url 0 = ([HttpGet (client_for url) url], Some (Inl err))"
  by (subst downloadFile.simps) simp

lemma downloadFile_throws_later:
  "0 < n \<Longrightarrow> n \<le> 5 \<Longrightarrow> client_get w n url = Throws err \<Longrightarrow>
   downloadFile w jar url n = ([HttpGet (client_for url) url, UncaughtException err], None)"
  by (subst downloadFile.simps) simp

lemma downloadFile_request_error:
  "n \<le> 5 \<Longrightarrow> client_get w n url = RequestError err \<Longrightarrow>
   downloadFile w jar url n = ([HttpGet (client_for url) url], Some (Inl err))"
  by (subst downloadFile.simps) simp

lemma downloadFile_finish:
  "n \<le> 5 \<Longrightarrow> client_get w n url = Response 200 loc Finish \<Longrightarrow>
   downloadFile w jar url n =
     ([HttpGet (client_for url) url, CreateWriteStream jar,
       ConsoleLog [''Gradle wrapper jar downloaded successfully'']], Some (Inr ()))"
  by (subst downloadFile.simps) simp

lemma downloadFile_stream_error:
  "n \<le> 5 \<Longrightarrow> client_get w n url = Response 200 loc (StreamError err) \<Longrightarrow>
   downloadFile w jar url n =
     ([HttpGet (client_for url) url, CreateWriteStream jar, Unlink jar], Some (Inl err))"
  by (subst downloadFile.simps) simp

lemma downloadFile_redirect:
  "n \<le> 5 \<Longrightarrow> client_get w n url = Response st loc s \<Longrightarrow> st = 301 \<or> st = 302 \<Longrightarrow>
   \<not> falsy loc \<Longrightarrow>
   downloadFile w jar url n =
     (HttpGet (client_for url) url # ConsoleLog [''Following redirect to: '' @ template loc]
        # fst (downloadFile w jar (template loc) (n + 1)),
      snd (downloadFile w jar (template loc) (n + 1)))"
  by (subst downloadFile.simps) (auto simp: Let_def split: prod.splits)

lemma downloadFile_no_location:
  "n \<le> 5 \<Longrightarrow> client_get w n url = Response st loc s \<Longrightarrow> st = 301 \<or> st = 302 \<Longrightarrow>
   falsy loc \<Longrightarrow>
   downloadFile w jar url n =
     ([HttpGet (client_for url) url], Some (Inl ''Redirect without location header''))"
  by (subst downloadFile.simps) auto

lemma downloadFile_bad_status:
  "n \<le> 5 \<Longrightarrow> client_get w n url = Response st loc s \<Longrightarrow> st \<noteq> 200 \<Longrightarrow> st \<noteq> 301 \<Longrightarrow>
   st \<noteq> 302 \<Longrightarrow>
   downloadFile w jar url n =
     ([HttpGet (client_for url) url],
      Some (Inl (''Failed to download gradle-wrapper.jar: '' @ show_nat st)))"
  by (subst downloadFile.simps) simp

text \<open>The cases of one call, for the proofs by induction on the redirect count.\<close>

lemma downloadFile_cases:
  obtains (limit) "n > 5"
  | (throws) err where "n \<le> 5" "client_get w n url = Throws err"
  | (error) err where "n \<le> 5" "client_get w n url = RequestError err"
  | (finish) loc where "n \<le> 5" "client_get w n url = Response 200 loc Finish"
  | (stream) loc err where "n \<le> 5" "client_get w n url = Response 200 loc (StreamError err)"
  | (redirect) st loc s where "n \<le> 5" "client_get w n url = Response st loc s"
      "st = 301 \<or> st = 302" "\<not> falsy loc"
  | (nolocation) st loc s where "n \<le> 5" "client_get w n url = Response st loc s"
      "st = 301 \<or> st = 302" "falsy loc"
  | (status) st loc s where "n \<le> 5" "client_get w n url = Response st loc s"
      "st \<noteq> 200" "st \<noteq> 301" "st \<noteq> 302"
proof (cases "n > 5")
  case True
  then show ?thesis by (rule limit)
next
  case False
  then have le: "n \<le> 5" by simp
  show ?thesis
  proof (cases "client_get w n url")
    case (Throws err)
    with le show ?thesis by (rule throws)
  next
    case (RequestError err)
    with le show ?thesis by (rule error)
  next
    case (Response st loc s)
    show ?thesis
    proof (cases "st = 200")
      case True
      with Response le show ?thesis by (cases s) (auto intro: finish stream)
    next
      case False
      with Response le show ?thesis
        by (cases "st = 301 \<or> st = 302"; cases "falsy loc")
           (auto intro: redirect nolocation status)
    qed
  qed
qed

lemma downloadFile_throws:
  "n \<le> 5 \<Longrightarrow> client_get w n url = Throws err \<Longrightarrow>
   downloadFile w jar url n =
     (if n = 0 then ([HttpGet (client_for url) url], Some (Inl err))
      else ([HttpGet (client_for url) url, UncaughtException err], None))"
  by (cases "n = 0") (simp_all add: downloadFile_throws_first downloadFile_throws_later)

lemma downloadFile_gets: "length (filter is_get (fst (downloadFile w jar url n))) \<le> 6 - n"
proof (induction "6 - n" arbitrary: n url)
  case 0
  then have "n > 5" by simp
  then show ?case by (simp add: downloadFile_too_many)
next
  case (Suc k)
  then have le: "n \<le> 5" by simp
  show ?case
  proof (cases rule: downloadFile_cases [where n = n and w = w and url = url])
    case limit
    with le show ?thesis by simp
  next
    case (throws err)
    then show ?thesis using le by (auto simp: downloadFile_throws)
  next
    case (error err)
    then show ?thesis using le by (simp add: downloadFile_request_error)
  next
    case (finish loc)
    then show ?thesis using le by (simp add: downloadFile_finish)
  next
    case (stream loc err)
    then show ?thesis using le by (simp add: downloadFile_stream_error)
  next
    case (redirect st loc s)
    from Suc.hyps(2) have "k = 6 - (n + 1)" by simp
    then have "length (filter is_get (fst (downloadFile w jar (template loc) (n + 1)))) \<le> 6 - (n + 1)"
      by (rule Suc.hyps(1))
    with redirect le show ?thesis by (simp add: downloadFile_redirect)
  next
    case (nolocation st loc s)
    then show ?thesis using le by (simp add: downloadFile_no_location)
  next
    case (status st loc s)
    then show ?thesis using le by (simp add: downloadFile_bad_status)
  qed
qed

lemma downloadFile_events:
  "ev \<in> set (fst (downloadFile w jar url n)) \<Longrightarrow>
   \<not> is_respond ev \<and> \<not> is_spawn ev \<and> \<not> is_cleanup ev"
proof (induction "6 - n" arbitrary: n url)
  case 0
  then have "n > 5" by simp
  with 0 show ?case by (simp add: downloadFile_too_many)
next
  case (Suc k)
  then have le: "n \<le> 5" by simp
  show ?case
  proof (cases rule: downloadFile_cases [where n = n and w = w and url = url])
    case limit
    with le show ?thesis by simp
  next
    case (throws err)
    with Suc.prems le show ?thesis by (auto simp: downloadFile_throws split: if_splits)
  next
    case (error err)
    with Suc.prems le show ?thesis by (auto simp: downloadFile_request_error)
  next
    case (finish loc)
    with Suc.prems le show ?thesis by (auto simp: downloadFile_finish)
  next
    case (stream loc err)
    with Suc.prems le show ?thesis by (auto simp: downloadFile_stream_error)
  next
    case (redirect st loc s)
    from Suc.hyps(2) have k: "k = 6 - (n + 1)" by simp
    from Suc.prems have "ev = HttpGet (client_for url) url
        \<or> ev = ConsoleLog [''Following redirect to: '' @ template loc]
        \<or> ev \<in> set (fst (downloadFile w jar (template loc) (n + 1)))"
      by (simp add: downloadFile_redirect [OF le redirect(2,3,4)])
    with Suc.hyps(1) [OF k] show ?thesis by auto
  next
    case (nolocation st loc s)
    with Suc.prems le show ?thesis by (auto simp: downloadFile_no_location)
  next
    case (status st loc s)
    with Suc.prems le show ?thesis by (auto simp: downloadFile_bad_status)
  qed
qed

text \<open>
  A chain of redirects that stays among URLs \<open>client.get\<close> answers with a redirect ends at
  the limit.
\<close>

lemma downloadFile_loop:
  assumes "\<And>k u. P u \<Longrightarrow> \<exists>st loc s. client_get w k u = Response st loc s
             \<and> (st = 301 \<or> st = 302) \<and> \<not> falsy loc \<and> P (template loc)"
    and "P url"
  shows "snd (downloadFile w jar url n) = Some (Inl ''Too many redirects'')
         \<and> length (filter is_get (fst (downloadFile w jar url n))) = 6 - n"
  using assms(2)
proof (induction "6 - n" arbitrary: n url)
  case 0
  then have "n > 5" by simp
  then show ?case by (simp add: downloadFile_too_many)
next
  case (Suc k)
  then have le: "n \<le> 5" by simp
  from assms(1) [OF Suc.prems] obtain st loc s where r: "client_get w n url = Response st loc s"
    "st = 301 \<or> st = 302" "\<not> falsy loc" and P: "P (template loc)" by blast
  from Suc.hyps(2) have "k = 6 - (n + 1)" by simp
  then have "snd (downloadFile w jar (template loc) (n + 1)) = Some (Inl ''Too many redirects'')
     \<and> length (filter is_get (fst (downloadFile w jar (template loc) (n + 1)))) = 6 - (n + 1)"
    using P by (rule Suc.hyps(1))
  with le show ?case
    by (simp add: downloadFile_redirect [OF le r])
qed

subsection \<open>Facts about the invoker and the handler\<close>

lemma createGradleWrapper_run:
  "createGradleWrapper w projectDir =
     (case run_fs w (wrapper_calls projectDir) of
        (evs, Inl err) \<Rightarrow> (evs, Some (Inl err))
      | (evs, Inr u) \<Rightarrow>
          (evs @ fst (downloadFile w (gradleWrapperJar projectDir) jarUrl 0),
           snd (downloadFile w (gradleWrapperJar projectDir) jarUrl 0)))"
  by (simp add: createGradleWrapper_def split: prod.splits sum.splits)

lemma createGradleWrapper_events:
  assumes "ev \<in> set (fst (createGradleWrapper w projectDir))"
  shows "\<not> is_respond ev \<and> \<not> is_spawn ev \<and> \<not> is_cleanup ev"
proof -
  obtain evs r where rf: "run_fs w (wrapper_calls projectDir) = (evs, r)"
    by (cases "run_fs w (wrapper_calls projectDir)")
  have fs: "\<not> is_respond e \<and> \<not> is_spawn e \<and> \<not> is_cleanup e" if "e \<in> set evs" for e
  proof -
    from that rf have "e \<in> set (fst (run_fs w (wrapper_calls projectDir)))" by simp
    then obtain c where c: "c \<in> set (wrapper_calls projectDir)"
      "e = FsOk c \<or> (\<exists>x. e = FsFailed c x)" and q: "\<not> is_respond e \<and> \<not> is_spawn e"
      using run_fs_quiet by blast
    with wrapper_calls_no_remove [OF c(1)] show ?thesis by auto
  qed
  have dl: "\<not> is_respond e \<and> \<not> is_spawn e \<and> \<not> is_cleanup e"
    if "e \<in> set (fst (downloadFile w (gradleWrapperJar projectDir) jarUrl 0))" for e
    using that by (rule downloadFile_events)
  from assms rf have "ev \<in> set evs
      \<or> ev \<in> set (fst (downloadFile w (gradleWrapperJar projectDir) jarUrl 0))"
    by (cases r) (auto simp: createGradleWrapper_run)
  with fs dl show ?thesis by blast
qed

lemma compileAPK_setup_failed:
  "createGradleWrapper w projectDir = (evs, Some (Inl e)) \<Longrightarrow>
   compileAPK w projectDir appName = (evs, Some (Inl (''Failed to setup Gradle wrapper: '' @ e)))"
  by (simp add: compileAPK_def)

lemma compileAPK_setup_unsettled:
  "createGradleWrapper w projectDir = (evs, None) \<Longrightarrow>
   compileAPK w projectDir appName = (evs, None)"
  by (simp add: compileAPK_def)

lemma compileAPK_exited:
  assumes "createGradleWrapper w projectDir = (evs, Some (Inr u))"
    and "child w = Exited chunks code"
  shows "compileAPK w projectDir appName =
     (if code = Some 0 then
        (evs @ [Spawn (if platform w = ''win32'' then ''gradlew.bat'' else ''./gradlew'')
                  gradle_args projectDir (platform w = ''win32'')
                  ''-Xmx512m -XX:MaxMetaspaceSize=256m'']
             @ map chunk_event chunks @ [ExistsSync (apkPath projectDir)],
         if existsSync w (apkPath projectDir) then Some (Inr (apkPath projectDir))
         else Some (Inl ''APK file not found after build''))
      else
        (evs @ [Spawn (if platform w = ''win32'' then ''gradlew.bat'' else ''./gradlew'')
                  gradle_args projectDir (platform w = ''win32'')
                  ''-Xmx512m -XX:MaxMetaspaceSize=256m'']
             @ map chunk_event chunks,
         Some (Inl (''Gradle build failed with code '' @ show_code code @ '': ''
                    @ errorOutput chunks))))"
  using assms by (simp add: compileAPK_def Let_def)

lemma compileAPK_spawn_failed:
  assumes "createGradleWrapper w projectDir = (evs, Some (Inr u))"
    and "child w = SpawnFailed err"
  shows "compileAPK w projectDir appName =
     (evs @ [Spawn (if platform w = ''win32'' then ''gradlew.bat'' else ''./gradlew'')
               gradle_args projectDir (platform w = ''win32'')
               ''-Xmx512m -XX:MaxMetaspaceSize=256m'',
             UncaughtException err], None)"
  using assms by (simp add: compileAPK_def Let_def)

lemma compileAPK_spawn_throws:
  assumes "createGradleWrapper w projectDir = (evs, Some (Inr u))"
    and "child w = SpawnThrows err"
  shows "compileAPK w projectDir appName =
     (evs @ [Spawn (if platform w = ''win32'' then ''gradlew.bat'' else ''./gradlew'')
               gradle_args projectDir (platform w = ''win32'')
               ''-Xmx512m -XX:MaxMetaspaceSize=256m''],
      Some (Inl (''Failed to setup Gradle wrapper: '' @ err)))"
  using assms by (simp add: compileAPK_def Let_def)

lemma compileAPK_events:
  assumes "ev \<in> set (fst (compileAPK w projectDir appName))"
  shows "\<not> is_respond ev \<and> \<not> is_cleanup ev"
proof -
  obtain evs r where cw: "createGradleWrapper w projectDir = (evs, r)"
    by (cases "createGradleWrapper w projectDir")
  then have fs: "\<forall>e \<in> set evs. \<not> is_respond e \<and> \<not> is_cleanup e"
    using createGradleWrapper_events [of _ w projectDir] by simp
  have chunks: "\<not> is_respond (chunk_event c) \<and> \<not> is_cleanup (chunk_event c)" for c
    by (cases c) simp_all
  show ?thesis
  proof (cases r)
    case None
    with cw assms fs show ?thesis by (simp add: compileAPK_setup_unsettled)
  next
    case (Some s)
    show ?thesis
    proof (cases s)
      case (Inl e)
      with Some cw assms fs show ?thesis by (simp add: compileAPK_setup_failed)
    next
      case (Inr u)
      with Some cw have ok: "createGradleWrapper w projectDir = (evs, Some (Inr u))" by simp
      show ?thesis
      proof (cases "child w")
        case (Exited cs code)
        with assms fs chunks show ?thesis
          by (auto simp: compileAPK_exited [OF ok Exited] split: if_splits)
      next
        case (SpawnFailed err)
        with assms fs show ?thesis
          by (auto simp: compileAPK_spawn_failed [OF ok SpawnFailed])
      next
        case (SpawnThrows err)
        with assms fs show ?thesis
          by (auto simp: compileAPK_spawn_throws [OF ok SpawnThrows])
      qed
    qed
  qed
qed


lemma createGradleWrapper_ok:
  assumes "\<forall>c. fs_error w c = None" and "http_get w 0 jarUrl = Response 200 loc Finish"
  shows "createGradleWrapper w projectDir =
     (map FsOk (wrapper_calls projectDir)
        @ [HttpGet (client_for jarUrl) jarUrl, CreateWriteStream (gradleWrapperJar projectDir),
           ConsoleLog [''Gradle wrapper jar downloaded successfully'']],
      Some (Inr ()))"
proof -
  from assms(1) have "run_fs w (wrapper_calls projectDir) = (map FsOk (wrapper_calls projectDir), Inr ())"
    by (intro run_fs_all_ok) simp
  moreover have "client_get w 0 jarUrl = Response 200 loc Finish"
    using assms(2) by (simp add: client_get_colon jarUrl_colon)
  then have "downloadFile w (gradleWrapperJar projectDir) jarUrl 0 =
     ([HttpGet (client_for jarUrl) jarUrl, CreateWriteStream (gradleWrapperJar projectDir),
       ConsoleLog [''Gradle wrapper jar downloaded successfully'']], Some (Inr ()))"
    by (intro downloadFile_finish) simp_all
  ultimately show ?thesis by (simp add: createGradleWrapper_run)
qed

lemma try_body_made_failed:
  "createAndroidProject w pd manifest a l n = (evs1, Inl e) \<Longrightarrow>
   try_body w pd manifest a l n = (evs1, Some (Inl e))"
  by (simp add: try_body_def)

lemma try_body_made_ok:
  "createAndroidProject w pd manifest a l n = (evs1, Inr u) \<Longrightarrow>
   try_body w pd manifest a l n = (evs1 @ fst (compileAPK w pd n), snd (compileAPK w pd n))"
  by (cases "compileAPK w pd n") (simp add: try_body_def)

lemma try_body_events:
  assumes "ev \<in> set (fst (try_body w projectDir manifest a l n))"
  shows "\<not> is_respond ev \<and> \<not> is_cleanup ev"
proof -
  obtain evs1 r1 where cp: "createAndroidProject w projectDir manifest a l n = (evs1, r1)"
    by (cases "createAndroidProject w projectDir manifest a l n")
  then have e1: "\<forall>e \<in> set evs1. \<not> is_respond e \<and> \<not> is_cleanup e"
    using createAndroidProject_events [of _ w projectDir manifest a l n] by simp
  show ?thesis
  proof (cases r1)
    case (Inl e)
    with cp assms e1 show ?thesis by (simp add: try_body_made_failed)
  next
    case (Inr u)
    with cp assms have "ev \<in> set evs1 \<or> ev \<in> set (fst (compileAPK w projectDir n))"
      by (simp add: try_body_made_ok)
    with e1 compileAPK_events show ?thesis by blast
  qed
qed

lemma filter_respond_try_body:
  "filter is_respond (fst (try_body w projectDir manifest a l n)) = []"
  using try_body_events [of _ w projectDir manifest a l n]
  by (simp add: filter_empty_conv)

lemma try_body_fail:
  assumes "snd (createAndroidProject w projectDir manifest a l n) = Inl message
           \<or> (snd (createAndroidProject w projectDir manifest a l n) = Inr ()
              \<and> snd (compileAPK w projectDir n) = Some (Inl message))"
  shows "snd (try_body w projectDir manifest a l n) = Some (Inl message)"
proof -
  obtain evs1 r1 where cp: "createAndroidProject w projectDir manifest a l n = (evs1, r1)"
    by (cases "createAndroidProject w projectDir manifest a l n")
  from assms cp show ?thesis
    by (cases r1) (auto simp: try_body_made_failed try_body_made_ok)
qed

lemma try_body_success:
  assumes "snd (createAndroidProject w projectDir manifest a l n) = Inr ()"
    and "snd (compileAPK w projectDir n) = Some (Inr apk)"
  shows "snd (try_body w projectDir manifest a l n) = Some (Inr apk)"
proof -
  obtain evs1 r1 where cp: "createAndroidProject w projectDir manifest a l n = (evs1, r1)"
    by (cases "createAndroidProject w projectDir manifest a l n")
  from assms cp show ?thesis
    by (cases r1) (auto simp: try_body_made_ok)
qed

lemma try_body_unsettled:
  assumes "snd (createAndroidProject w projectDir manifest a l n) = Inr ()"
    and "snd (compileAPK w projectDir n) = None"
  shows "snd (try_body w projectDir manifest a l n) = None"
proof -
  obtain evs1 r1 where cp: "createAndroidProject w projectDir manifest a l n = (evs1, r1)"
    by (cases "createAndroidProject w projectDir manifest a l n")
  from assms cp show ?thesis
    by (cases r1) (auto simp: try_body_made_ok)
qed

lemma handler_valid:
  assumes "\<not> falsy (body ''manifest'')" "\<not> falsy (body ''mainActivity'')"
    "\<not> falsy (body ''layout'')"
  shows "post_compile_apk w body =
     (case try_body w (projectDir_of w) (body ''manifest'') (body ''mainActivity'')
             (body ''layout'') (appName_of body) of
        (evs, None) \<Rightarrow> evs
      | (evs, Some (Inl message)) \<Rightarrow> evs @ catch_block w (projectDir_of w) message
      | (evs, Some (Inr apk)) \<Rightarrow>
          evs @ [Respond (Download apk (template (appName_of body) @ ''.apk''))]
          @ download_callback w (projectDir_of w) apk)"
  using assms unfolding post_compile_apk_def Let_def
  by (simp split: prod.splits sum.splits option.splits)

lemma handler_failure:
  assumes "\<not> falsy (body ''manifest'')" "\<not> falsy (body ''mainActivity'')"
    "\<not> falsy (body ''layout'')"
    and "snd (try_body w (projectDir_of w) (body ''manifest'') (body ''mainActivity'')
                (body ''layout'') (appName_of body)) = Some (Inl message)"
  shows "post_compile_apk w body
           = fst (try_body w (projectDir_of w) (body ''manifest'') (body ''mainActivity'')
                    (body ''layout'') (appName_of body))
             @ catch_block w (projectDir_of w) message"
  using assms(4) unfolding handler_valid [OF assms(1,2,3)]
  by (cases "try_body w (projectDir_of w) (body ''manifest'') (body ''mainActivity'')
                (body ''layout'') (appName_of body)") simp

lemma handler_success:
  assumes "\<not> falsy (body ''manifest'')" "\<not> falsy (body ''mainActivity'')"
    "\<not> falsy (body ''layout'')"
    and "snd (try_body w (projectDir_of w) (body ''manifest'') (body ''mainActivity'')
                (body ''layout'') (appName_of body)) = Some (Inr apk)"
  shows "post_compile_apk w body
           = fst (try_body w (projectDir_of w) (body ''manifest'') (body ''mainActivity'')
                    (body ''layout'') (appName_of body))
             @ [Respond (Download apk (template (appName_of body) @ ''.apk''))]
             @ download_callback w (projectDir_of w) apk"
  using assms(4) unfolding handler_valid [OF assms(1,2,3)]
  by (cases "try_body w (projectDir_of w) (body ''manifest'') (body ''mainActivity'')
                (body ''layout'') (appName_of body)") simp

lemma handler_unsettled:
  assumes "\<not> falsy (body ''manifest'')" "\<not> falsy (body ''mainActivity'')"
    "\<not> falsy (body ''layout'')"
    and "snd (try_body w (projectDir_of w) (body ''manifest'') (body ''mainActivity'')
                (body ''layout'') (appName_of body)) = None"
  shows "post_compile_apk w body
           = fst (try_body w (projectDir_of w) (body ''manifest'') (body ''mainActivity'')
                    (body ''layout'') (appName_of body))"
  using assms(4) unfolding handler_valid [OF assms(1,2,3)]
  by (cases "try_body w (projectDir_of w) (body ''manifest'') (body ''mainActivity'')
                (body ''layout'') (appName_of body)") simp

lemma handler_made_failed:
  assumes "\<not> falsy (body ''manifest'')" "\<not> falsy (body ''mainActivity'')"
    "\<not> falsy (body ''layout'')"
    and "createAndroidProject w (projectDir_of w) (body ''manifest'') (body ''mainActivity'')
           (body ''layout'') (appName_of body) = (evs1, Inl e)"
  shows "post_compile_apk w body = evs1 @ catch_block w (projectDir_of w) e"
  unfolding handler_valid [OF assms(1,2,3)] try_body_made_failed [OF assms(4)] by simp

lemma handler_made_ok:
  assumes "\<not> falsy (body ''manifest'')" "\<not> falsy (body ''mainActivity'')"
    "\<not> falsy (body ''layout'')"
    and "createAndroidProject w (projectDir_of w) (body ''manifest'') (body ''mainActivity'')
           (body ''layout'') (appName_of body) = (evs1, Inr u)"
  shows "\<exists>rest. post_compile_apk w body
           = evs1 @ fst (compileAPK w (projectDir_of w) (appName_of body)) @ rest"
  unfolding handler_valid [OF assms(1,2,3)] try_body_made_ok [OF assms(4)]
  by (cases "snd (compileAPK w (projectDir_of w) (appName_of body))")
     (auto split: sum.splits)

lemma download_callback_cases:
  "download_callback w projectDir apk = [SetTimeout 5000 (remove_workspace w projectDir)]
   \<or> (\<exists>err. download_callback w projectDir apk
         = [ConsoleError [''Download error:'', err],
            SetTimeout 5000 (remove_workspace w projectDir)])"
  by (cases "sendFile w apk") (simp_all add: download_callback_def)

lemma filter_respond_callback: "filter is_respond (download_callback w projectDir apk) = []"
  using download_callback_cases [of w projectDir apk] by auto

lemma basename_plain: "s \<noteq> [] \<Longrightarrow> CHR ''/'' \<notin> set s \<Longrightarrow> basename s = s"
  by (simp add: basename_def split_path_single)

subsection \<open>Facts about the path of the main source file\<close>

lemma main_source_rel_clean:
  "''..'' \<notin> set (split_path (''app/src/main/java/'' @ replace_dots s @ ''/MainActivity.java''))"
proof -
  have "''app/src/main/java/'' @ replace_dots s @ ''/MainActivity.java''
          = ''app/src/main/java'' @ CHR ''/'' # ((replace_dots s) @ CHR ''/'' # ''MainActivity.java'')"
    by simp
  then have "split_path (''app/src/main/java/'' @ replace_dots s @ ''/MainActivity.java'')
          = split_path ''app/src/main/java'' @ split_path (replace_dots s)
            @ split_path ''MainActivity.java''"
    by (simp only: split_path_append)
  moreover have "''..'' \<notin> set (split_path ''app/src/main/java'')" by simp
  moreover have "''..'' \<notin> set (split_path ''MainActivity.java'')" by simp
  ultimately show ?thesis using split_replace_dots_no_dotdot [of s] by simp
qed

lemma mainActivityPath_under: "under_dir projectDir (mainActivityPath projectDir manifest)"
  unfolding mainActivityPath_def packagePath_def
proof (rule under_dir_join)
  show "''..'' \<notin> set (split_path (''app/src/main/java/'' @ replace_dots (packageName manifest)
          @ ''/MainActivity.java''))"
    by (rule main_source_rel_clean)
  show "''app/src/main/java/'' @ replace_dots (packageName manifest) @ ''/MainActivity.java'' \<noteq> []"
    by simp
  show "\<not> isAbsolute (''app/src/main/java/'' @ replace_dots (packageName manifest)
          @ ''/MainActivity.java'')"
    by (simp add: isAbsolute_def)
qed

lemma mainActivityPath_suffix:
  assumes "\<forall>s \<in> set (split_path (packagePath manifest)). s \<noteq> [] \<and> s \<noteq> ''.'' \<and> s \<noteq> ''..''"
  shows "suffix (''app/src/main/java/'' @ packagePath manifest @ ''/MainActivity.java'')
           (mainActivityPath projectDir manifest)"
proof -
  have "''app/src/main/java/'' @ packagePath manifest @ ''/MainActivity.java''
          = ''app/src/main/java'' @ CHR ''/'' # ((packagePath manifest) @ CHR ''/'' # ''MainActivity.java'')"
    by simp
  then have "split_path (''app/src/main/java/'' @ packagePath manifest @ ''/MainActivity.java'')
          = split_path ''app/src/main/java'' @ split_path (packagePath manifest)
            @ split_path ''MainActivity.java''"
    by (simp only: split_path_append)
  moreover have "\<forall>s \<in> set (split_path ''app/src/main/java''). s \<noteq> [] \<and> s \<noteq> ''.'' \<and> s \<noteq> ''..''"
    by simp
  moreover have "\<forall>s \<in> set (split_path ''MainActivity.java''). s \<noteq> [] \<and> s \<noteq> ''.'' \<and> s \<noteq> ''..''"
    by simp
  ultimately have "\<forall>s \<in> set (split_path (''app/src/main/java/'' @ packagePath manifest @ ''/MainActivity.java'')).
      s \<noteq> [] \<and> s \<noteq> ''.'' \<and> s \<noteq> ''..''"
    using assms by auto
  then show ?thesis unfolding mainActivityPath_def by (rule path_join_suffix)
qed

lemma suffix_example_sublist:
  assumes "suffix ''app/src/main/java/com/example/foo/MainActivity.java'' p"
  shows "sublist ''com/example/foo'' p"
proof -
  from assms obtain pre where "p = pre @ ''app/src/main/java/com/example/foo/MainActivity.java''"
    by (auto simp: suffix_def)
  then have "p = (pre @ ''app/src/main/java/'') @ ''com/example/foo'' @ ''/MainActivity.java''"
    by simp
  then show ?thesis unfolding sublist_def by blast
qed

lemma createAndroidProject_writes:
  assumes "snd (createAndroidProject w projectDir (Str manifest) mainActivity layout appName) = Inr ()"
  shows "fst (createAndroidProject w projectDir (Str manifest) mainActivity layout appName)
           = map FsOk (project_calls projectDir manifest mainActivity layout appName)"
proof -
  let ?calls = "project_calls projectDir manifest mainActivity layout appName"
  from assms have "run_fs w ?calls = (fst (run_fs w ?calls), Inr ())"
    by (simp add: prod_eq_iff)
  then show ?thesis using run_fs_Inr by simp
qed

lemma packagePath_map:
  "packagePath manifest
     = map (\<lambda>c. if c = CHR ''.'' then CHR ''/'' else c) (packageName manifest)"
  by (simp add: packagePath_def replace_dots_def)

lemma main_source_written:
  assumes "snd (createAndroidProject w projectDir (Str manifest) mainActivity layout appName) = Inr ()"
  shows "FsOk (EnsureDir (path_join [projectDir, ''app/src/main/java/'' @ packagePath manifest]))
           \<in> set (fst (createAndroidProject w projectDir (Str manifest) mainActivity layout appName))"
    and "FsOk (WriteFile
             (path_join [projectDir,
                ''app/src/main/java/'' @ packagePath manifest @ ''/MainActivity.java''])
             (Data mainActivity))
           \<in> set (fst (createAndroidProject w projectDir (Str manifest) mainActivity layout appName))"
  unfolding createAndroidProject_writes [OF assms]
  by (simp_all add: project_calls_explicit)

subsection \<open>Facts about successful and failing runs\<close>

lemma compileAPK_built:
  assumes "\<forall>c. fs_error w c = None" and "http_get w 0 jarUrl = Response 200 loc Finish"
    and "child w = Exited chunks code"
  shows "snd (compileAPK w projectDir appName) =
     (if code = Some 0 then
        (if existsSync w (apkPath projectDir) then Some (Inr (apkPath projectDir))
         else Some (Inl ''APK file not found after build''))
      else Some (Inl (''Gradle build failed with code '' @ show_code code @ '': ''
                      @ errorOutput chunks)))"
  using compileAPK_exited [OF createGradleWrapper_ok [OF assms(1,2)] assms(3)]
  by simp

lemma downloadFile_relative_redirect:
  assumes "n < 5" and "client_get w n url = Response st loc s" and "st = 301 \<or> st = 302"
    and "\<not> falsy loc" and "CHR '':'' \<notin> set (template loc)"
  shows "downloadFile w jar url n =
     ([HttpGet (client_for url) url, ConsoleLog [''Following redirect to: '' @ template loc],
       HttpGet (client_for (template loc)) (template loc),
       UncaughtException (invalid_url w (template loc))], None)"
proof -
  from assms(1) have le: "n \<le> 5" by simp
  have thrown: "client_get w (n + 1) (template loc) = Throws (invalid_url w (template loc))"
    using assms(5) by (rule client_get_no_colon)
  have "downloadFile w jar (template loc) (n + 1) =
     ([HttpGet (client_for (template loc)) (template loc),
       UncaughtException (invalid_url w (template loc))], None)"
    using assms(1) thrown by (intro downloadFile_throws_later) simp_all
  then show ?thesis
    unfolding downloadFile_redirect [OF le assms(2,3,4)] by simp
qed

lemma createGradleWrapper_relative_redirect:
  assumes "\<forall>c \<in> set (wrapper_calls projectDir). fs_error w c = None"
    and "http_get w 0 jarUrl = Response st loc s" and "st = 301 \<or> st = 302"
    and "\<not> falsy loc" and "CHR '':'' \<notin> set (template loc)"
  shows "createGradleWrapper w projectDir =
     (map FsOk (wrapper_calls projectDir)
        @ [HttpGet Https jarUrl, ConsoleLog [''Following redirect to: '' @ template loc],
           HttpGet (client_for (template loc)) (template loc),
           UncaughtException (invalid_url w (template loc))], None)"
proof -
  have fs: "run_fs w (wrapper_calls projectDir) = (map FsOk (wrapper_calls projectDir), Inr ())"
    using assms(1) by (rule run_fs_all_ok)
  have get: "client_get w 0 jarUrl = Response st loc s"
    using assms(2) by (simp add: client_get_colon jarUrl_colon)
  have https: "client_for jarUrl = Https" by (simp add: client_for_def jarUrl_def)
  have "downloadFile w (gradleWrapperJar projectDir) jarUrl 0 =
     ([HttpGet Https jarUrl, ConsoleLog [''Following redirect to: '' @ template loc],
       HttpGet (client_for (template loc)) (template loc),
       UncaughtException (invalid_url w (template loc))], None)"
    using downloadFile_relative_redirect [OF _ get assms(3,4,5), of "gradleWrapperJar projectDir"]
    by (simp add: https)
  with fs show ?thesis by (simp add: createGradleWrapper_run)
qed

lemma compileAPK_relative_redirect:
  assumes "\<forall>c \<in> set (wrapper_calls projectDir). fs_error w c = None"
    and "http_get w 0 jarUrl = Response st loc s" and "st = 301 \<or> st = 302"
    and "\<not> falsy loc" and "CHR '':'' \<notin> set (template loc)"
  shows "compileAPK w projectDir appName =
     (map FsOk (wrapper_calls projectDir)
        @ [HttpGet Https jarUrl, ConsoleLog [''Following redirect to: '' @ template loc],
           HttpGet (client_for (template loc)) (template loc),
           UncaughtException (invalid_url w (template loc))], None)"
  using createGradleWrapper_relative_redirect [OF assms] by (rule compileAPK_setup_unsettled)

lemma wrapper_calls_quiet:
  "ev \<in> set (map FsOk (wrapper_calls projectDir)) \<Longrightarrow> \<not> is_spawn ev"
  by auto

lemma handler_unsettled_trace:
  assumes "\<not> falsy (body ''manifest'')" "\<not> falsy (body ''mainActivity'')"
    "\<not> falsy (body ''layout'')"
    and "snd (createAndroidProject w (projectDir_of w) (body ''manifest'') (body ''mainActivity'')
                (body ''layout'') (appName_of body)) = Inr ()"
    and "snd (compileAPK w (projectDir_of w) (appName_of body)) = None"
  shows "post_compile_apk w body
           = fst (createAndroidProject w (projectDir_of w) (body ''manifest'')
                    (body ''mainActivity'') (body ''layout'') (appName_of body))
             @ fst (compileAPK w (projectDir_of w) (appName_of body))"
proof -
  let ?made = "createAndroidProject w (projectDir_of w) (body ''manifest'')
                 (body ''mainActivity'') (body ''layout'') (appName_of body)"
  let ?t = "try_body w (projectDir_of w) (body ''manifest'') (body ''mainActivity'')
              (body ''layout'') (appName_of body)"
  have made: "?made = (fst ?made, Inr ())" using assms(4) by (simp add: prod_eq_iff)
  have "snd ?t = None" using assms(4,5) by (rule try_body_unsettled)
  with assms(1,2,3) have "post_compile_apk w body = fst ?t" by (rule handler_unsettled)
  also have "fst ?t = fst ?made @ fst (compileAPK w (projectDir_of w) (appName_of body))"
    using try_body_made_ok [OF made] by simp
  finally show ?thesis .
qed


lemma handler_failure_trace:
  assumes "\<not> falsy (body ''manifest'')" "\<not> falsy (body ''mainActivity'')"
    "\<not> falsy (body ''layout'')"
    and "snd (createAndroidProject w (projectDir_of w) (body ''manifest'') (body ''mainActivity'')
                (body ''layout'') (appName_of body)) = Inl message
         \<or> (snd (createAndroidProject w (projectDir_of w) (body ''manifest'')
                   (body ''mainActivity'') (body ''layout'') (appName_of body)) = Inr ()
            \<and> snd (compileAPK w (projectDir_of w) (appName_of body)) = Some (Inl message))"
  shows "(\<exists>evs. post_compile_apk w body
            = evs @ [ConsoleError [''Compilation error:'', message],
                     Respond (Json 500 [(''error'', ''APK compilation failed''),
                                        (''details'', message)])]
              @ remove_workspace w (projectDir_of w)
            \<and> (\<forall>ev \<in> set evs. \<not> is_respond ev))
       \<and> filter is_respond (post_compile_apk w body)
           = [Respond (Json 500 [(''error'', ''APK compilation failed''), (''details'', message)])]
       \<and> (remove_workspace w (projectDir_of w) = [FsOk (Remove (projectDir_of w))]
          \<or> (\<exists>err. remove_workspace w (projectDir_of w)
                = [FsFailed (Remove (projectDir_of w)) err, ConsoleError [err]]))"
proof -
  let ?t = "try_body w (projectDir_of w) (body ''manifest'') (body ''mainActivity'')
              (body ''layout'') (appName_of body)"
  have "snd ?t = Some (Inl message)" using assms(4) by (rule try_body_fail)
  with assms(1,2,3) have post: "post_compile_apk w body = fst ?t @ catch_block w (projectDir_of w) message"
    by (rule handler_failure)
  have quiet: "\<forall>ev \<in> set (fst ?t). \<not> is_respond ev"
    using try_body_events by blast
  have "filter is_respond (post_compile_apk w body)
          = [Respond (Json 500 [(''error'', ''APK compilation failed''), (''details'', message)])]"
    unfolding post
    by (simp add: filter_respond_try_body filter_respond_remove catch_block_def)
  moreover have "post_compile_apk w body
            = fst ?t @ [ConsoleError [''Compilation error:'', message],
                     Respond (Json 500 [(''error'', ''APK compilation failed''),
                                        (''details'', message)])]
              @ remove_workspace w (projectDir_of w)"
    unfolding post by (simp add: catch_block_def)
  ultimately show ?thesis
    using quiet remove_workspace_cases [of w "projectDir_of w"] by blast
qed


subsection \<open>Validation\<close>

text \<open>
  C1. When one of \<open>manifest\<close>, \<open>mainActivity\<close>, \<open>layout\<close> is absent or the empty string,
  the handler's only effect is the response with status 400 and the fixed error body: no
  identifier is drawn and no file-system call is made, so no workspace directory exists.
\<close>

theorem missing_field_rejected:
  assumes "k \<in> {''manifest'', ''mainActivity'', ''layout''}"
    and "body k = Undefined \<or> body k = Str []"
  shows "post_compile_apk w body =
           [Respond (Json 400
              [(''error'', ''Missing required files: manifest, mainActivity, or layout'')])]"
proof -
  from assms(2) have "falsy (body k)" by auto
  with assms(1) have
    "falsy (body ''manifest'') \<or> falsy (body ''mainActivity'') \<or> falsy (body ''layout'')"
    by auto
  then show ?thesis
    unfolding post_compile_apk_def Let_def by simp
qed

theorem missing_field_rejected_witness:
  "post_compile_apk demo_world (demo_body(''layout'' := Str [])) =
     [Respond (Json 400
        [(''error'', ''Missing required files: manifest, mainActivity, or layout'')])]"
  using missing_field_rejected [of "''layout''" "demo_body(''layout'' := Str [])" demo_world]
  by simp

subsection \<open>The package identifier and the path of the main source file\<close>

text \<open>
  C2, as stated, does not hold in its example: a manifest that contains
  \<open>package="com.example.foo"\<close> need not give a source path containing \<open>com/example/foo\<close>.
  In the manifest below the pattern stands first in a comment, so the identifier is
  \<open>old.name\<close>, and the main source file is written at
  \<open>app/src/main/java/old/name/MainActivity.java\<close> of the workspace.
\<close>

theorem earlier_match_counterexample:
  \<open>sublist ''package="com.example.foo"''
      ''<!-- package="old.name" --><manifest package="com.example.foo"/>''
   \<and> match_package ''<!-- package="old.name" --><manifest package="com.example.foo"/>''
       = Some ''old.name''
   \<and> snd (createAndroidProject demo_world ''/app/temp/110ec58a-a0f2-4ac4-8393-c866d813b8d1''
             (Str ''<!-- package="old.name" --><manifest package="com.example.foo"/>'')
             (Str ''class MainActivity {}'') (Str ''<LinearLayout/>'') (Str ''DemoApp'')) = Inr ()
   \<and> FsOk (WriteFile
        ''/app/temp/110ec58a-a0f2-4ac4-8393-c866d813b8d1/app/src/main/java/old/name/MainActivity.java''
        (Data (Str ''class MainActivity {}'')))
       \<in> set (fst (createAndroidProject demo_world
                      ''/app/temp/110ec58a-a0f2-4ac4-8393-c866d813b8d1''
                      (Str ''<!-- package="old.name" --><manifest package="com.example.foo"/>'')
                      (Str ''class MainActivity {}'') (Str ''<LinearLayout/>'') (Str ''DemoApp'')))
   \<and> \<not> sublist ''com/example/foo''
        ''/app/temp/110ec58a-a0f2-4ac4-8393-c866d813b8d1/app/src/main/java/old/name/MainActivity.java''\<close>
proof -
  let ?m = \<open>''<!-- package="old.name" --><manifest package="com.example.foo"/>''\<close>
  let ?pd = "''/app/temp/110ec58a-a0f2-4ac4-8393-c866d813b8d1''"
  have 1: \<open>sublist ''package="com.example.foo"'' ?m\<close>
  proof -
    have \<open>?m = ''<!-- package="old.name" --><manifest '' @ ''package="com.example.foo"'' @ ''/>''\<close>
      by simp
    then show ?thesis unfolding sublist_def by blast
  qed
  have 2: "match_package ?m = Some ''old.name''" by code_simp
  have ok: "\<forall>c. fs_error demo_world c = None" by (simp add: demo_world_def)
  have made: "createAndroidProject demo_world ?pd (Str ?m) (Str ''class MainActivity {}'')
                (Str ''<LinearLayout/>'') (Str ''DemoApp'')
       = (map FsOk (project_calls ?pd ?m (Str ''class MainActivity {}'') (Str ''<LinearLayout/>'')
                      (Str ''DemoApp'')), Inr ())"
    using ok by (rule createAndroidProject_ok)
  have path: "path_join [?pd, ''app/src/main/java/'' @ packagePath ?m @ ''/MainActivity.java'']
      = ''/app/temp/110ec58a-a0f2-4ac4-8393-c866d813b8d1/app/src/main/java/old/name/MainActivity.java''"
    by code_simp
  have 3: "snd (createAndroidProject demo_world ?pd (Str ?m) (Str ''class MainActivity {}'')
                (Str ''<LinearLayout/>'') (Str ''DemoApp'')) = Inr ()"
    unfolding made by simp
  have 4: "FsOk (WriteFile
        ''/app/temp/110ec58a-a0f2-4ac4-8393-c866d813b8d1/app/src/main/java/old/name/MainActivity.java''
        (Data (Str ''class MainActivity {}'')))
       \<in> set (fst (createAndroidProject demo_world ?pd (Str ?m) (Str ''class MainActivity {}'')
                (Str ''<LinearLayout/>'') (Str ''DemoApp'')))"
    using main_source_written(2) [OF 3] unfolding path .
  have 5: "\<not> sublist ''com/example/foo''
        ''/app/temp/110ec58a-a0f2-4ac4-8393-c866d813b8d1/app/src/main/java/old/name/MainActivity.java''"
    by code_simp
  from 1 2 3 4 5 show ?thesis by blast
qed

text \<open>
  C2, corrected. The package identifier is the capture of the first match of
  \<open>package="..."\<close> in the manifest: the pattern stands at some position with the identifier
  between the quotes, and at no earlier position does the pattern stand at all. When the
  pattern stands nowhere, the identifier is \<open>com.apkforge.app\<close>. When
  \<open>createAndroidProject\<close> succeeds, it has created the directory and written the main
  source file, with the text supplied, at the path joined from the workspace directory and
  \<open>app/src/main/java/\<close> followed by the identifier with every dot replaced by \<open>/\<close>. When
  the first match captures \<open>com.example.foo\<close>, that path ends with
  \<open>app/src/main/java/com/example/foo/MainActivity.java\<close> and so contains
  \<open>com/example/foo\<close>; with the fallback it ends with
  \<open>app/src/main/java/com/apkforge/app/MainActivity.java\<close>.
\<close>

theorem package_identifier:
  \<open>(match_package manifest = Some p \<longleftrightarrow>
       (\<exists>i. pattern_at manifest i p \<and> (\<forall>j < i. \<forall>q. \<not> pattern_at manifest j q)))
   \<and> (match_package manifest = None \<longleftrightarrow> (\<forall>i q. \<not> pattern_at manifest i q))
   \<and> (match_package manifest = Some p \<longrightarrow> packageName manifest = p)
   \<and> (match_package manifest = None \<longrightarrow> packageName manifest = ''com.apkforge.app'')
   \<and> (snd (createAndroidProject w projectDir (Str manifest) mainActivity layout appName) = Inr ()
        \<longrightarrow>
        FsOk (EnsureDir
               (path_join [projectDir,
                  ''app/src/main/java/''
                  @ map (\<lambda>c. if c = CHR ''.'' then CHR ''/'' else c) (packageName manifest)]))
          \<in> set (fst (createAndroidProject w projectDir (Str manifest) mainActivity layout appName))
        \<and> FsOk (WriteFile
                 (path_join [projectDir,
                    ''app/src/main/java/''
                    @ map (\<lambda>c. if c = CHR ''.'' then CHR ''/'' else c) (packageName manifest)
                    @ ''/MainActivity.java''])
                 (Data mainActivity))
          \<in> set (fst (createAndroidProject w projectDir (Str manifest) mainActivity layout appName)))
   \<and> (match_package manifest = Some ''com.example.foo'' \<longrightarrow>
        suffix ''app/src/main/java/com/example/foo/MainActivity.java''
          (path_join [projectDir,
             ''app/src/main/java/''
             @ map (\<lambda>c. if c = CHR ''.'' then CHR ''/'' else c) (packageName manifest)
             @ ''/MainActivity.java''])
        \<and> sublist ''com/example/foo''
          (path_join [projectDir,
             ''app/src/main/java/''
             @ map (\<lambda>c. if c = CHR ''.'' then CHR ''/'' else c) (packageName manifest)
             @ ''/MainActivity.java'']))
   \<and> (match_package manifest = None \<longrightarrow>
        suffix ''app/src/main/java/com/apkforge/app/MainActivity.java''
          (path_join [projectDir,
             ''app/src/main/java/''
             @ map (\<lambda>c. if c = CHR ''.'' then CHR ''/'' else c) (packageName manifest)
             @ ''/MainActivity.java'']))\<close>
proof -
  let ?src = "path_join [projectDir,
             ''app/src/main/java/''
             @ map (\<lambda>c. if c = CHR ''.'' then CHR ''/'' else c) (packageName manifest)
             @ ''/MainActivity.java'']"
  have src: "?src = mainActivityPath projectDir manifest"
    by (simp add: mainActivityPath_def packagePath_map)
  have 1: "match_package manifest = Some p \<longleftrightarrow>
          (\<exists>i. pattern_at manifest i p \<and> (\<forall>j < i. \<forall>q. \<not> pattern_at manifest j q))"
    by (rule match_package_Some_iff)
  have 2: "match_package manifest = None \<longleftrightarrow> (\<forall>i q. \<not> pattern_at manifest i q)"
    by (rule match_package_None_iff)
  have 3: "match_package manifest = Some p \<longrightarrow> packageName manifest = p"
    by (simp add: packageName_def)
  have 4: "match_package manifest = None \<longrightarrow> packageName manifest = ''com.apkforge.app''"
    by (simp add: packageName_def)
  have 5: "snd (createAndroidProject w projectDir (Str manifest) mainActivity layout appName) = Inr ()
        \<longrightarrow>
        FsOk (EnsureDir
               (path_join [projectDir,
                  ''app/src/main/java/''
                  @ map (\<lambda>c. if c = CHR ''.'' then CHR ''/'' else c) (packageName manifest)]))
          \<in> set (fst (createAndroidProject w projectDir (Str manifest) mainActivity layout appName))
        \<and> FsOk (WriteFile ?src (Data mainActivity))
          \<in> set (fst (createAndroidProject w projectDir (Str manifest) mainActivity layout appName))"
    using main_source_written [of w projectDir manifest mainActivity layout appName]
    unfolding packagePath_map by blast
  have foo: "suffix ''app/src/main/java/com/example/foo/MainActivity.java'' ?src"
    if "match_package manifest = Some ''com.example.foo''"
  proof -
    from that have pp: "packagePath manifest = ''com/example/foo''"
      by (simp add: packagePath_def packageName_def replace_dots_def)
    have "suffix (''app/src/main/java/'' @ packagePath manifest @ ''/MainActivity.java'')
            (mainActivityPath projectDir manifest)"
      by (rule mainActivityPath_suffix) (simp add: pp)
    then show ?thesis unfolding src by (simp add: pp)
  qed
  have 6: "match_package manifest = Some ''com.example.foo'' \<longrightarrow>
        suffix ''app/src/main/java/com/example/foo/MainActivity.java'' ?src
        \<and> sublist ''com/example/foo'' ?src"
    using foo suffix_example_sublist by blast
  have 7: "match_package manifest = None \<longrightarrow>
        suffix ''app/src/main/java/com/apkforge/app/MainActivity.java'' ?src"
  proof
    assume "match_package manifest = None"
    then have pp: "packagePath manifest = ''com/apkforge/app''"
      by (simp add: packagePath_def packageName_def replace_dots_def)
    have "suffix (''app/src/main/java/'' @ packagePath manifest @ ''/MainActivity.java'')
            (mainActivityPath projectDir manifest)"
      by (rule mainActivityPath_suffix) (simp add: pp)
    then show "suffix ''app/src/main/java/com/apkforge/app/MainActivity.java'' ?src"
      unfolding src by (simp add: pp)
  qed
  from 1 2 3 4 5 6 7 show ?thesis by blast
qed

theorem package_identifier_witness:
  \<open>match_package ''<manifest package="com.example.foo"/>'' = Some ''com.example.foo''
   \<and> (\<exists>i. pattern_at ''<manifest package="com.example.foo"/>'' i ''com.example.foo'')
   \<and> packageName ''<manifest package="com.example.foo"/>'' = ''com.example.foo''
   \<and> FsOk (WriteFile
        ''/app/temp/110ec58a-a0f2-4ac4-8393-c866d813b8d1/app/src/main/java/com/example/foo/MainActivity.java''
        (Data (Str ''class MainActivity {}'')))
       \<in> set (fst (createAndroidProject demo_world
                      ''/app/temp/110ec58a-a0f2-4ac4-8393-c866d813b8d1''
                      (Str ''<manifest package="com.example.foo"/>'')
                      (Str ''class MainActivity {}'') (Str ''<LinearLayout/>'') (Str ''DemoApp'')))
   \<and> sublist ''com/example/foo''
        ''/app/temp/110ec58a-a0f2-4ac4-8393-c866d813b8d1/app/src/main/java/com/example/foo/MainActivity.java''
   \<and> match_package ''<manifest/>'' = None
   \<and> packageName ''<manifest/>'' = ''com.apkforge.app''
   \<and> FsOk (WriteFile
        ''/app/temp/110ec58a-a0f2-4ac4-8393-c866d813b8d1/app/src/main/java/com/apkforge/app/MainActivity.java''
        (Data (Str ''class MainActivity {}'')))
       \<in> set (fst (createAndroidProject demo_world
                      ''/app/temp/110ec58a-a0f2-4ac4-8393-c866d813b8d1''
                      (Str ''<manifest/>'')
                      (Str ''class MainActivity {}'') (Str ''<LinearLayout/>'') (Str ''DemoApp'')))\<close>
proof -
  let ?m = \<open>''<manifest package="com.example.foo"/>''\<close>
  let ?pd = "''/app/temp/110ec58a-a0f2-4ac4-8393-c866d813b8d1''"
  let ?a = "Str ''class MainActivity {}''" and ?l = "Str ''<LinearLayout/>''"
  let ?n = "Str ''DemoApp''"
  have some: "match_package ?m = Some ''com.example.foo''" by code_simp
  have none: "match_package ''<manifest/>'' = None" by code_simp
  have ok: "\<forall>c. fs_error demo_world c = None" by (simp add: demo_world_def)
  have made: "snd (createAndroidProject demo_world ?pd (Str ?m) ?a ?l ?n) = Inr ()"
    "snd (createAndroidProject demo_world ?pd (Str ''<manifest/>'') ?a ?l ?n) = Inr ()"
    using createAndroidProject_ok [OF ok] by simp_all
  note t1 = package_identifier [of ?m "''com.example.foo''" demo_world ?pd ?a ?l ?n]
  note t2 = package_identifier [of "''<manifest/>''" "''com.apkforge.app''" demo_world ?pd ?a ?l ?n]
  have p1: "path_join [?pd, ''app/src/main/java/''
             @ map (\<lambda>c. if c = CHR ''.'' then CHR ''/'' else c) (packageName ?m)
             @ ''/MainActivity.java'']
     = ''/app/temp/110ec58a-a0f2-4ac4-8393-c866d813b8d1/app/src/main/java/com/example/foo/MainActivity.java''"
    by code_simp
  have p2: "path_join [?pd, ''app/src/main/java/''
             @ map (\<lambda>c. if c = CHR ''.'' then CHR ''/'' else c) (packageName ''<manifest/>'')
             @ ''/MainActivity.java'']
     = ''/app/temp/110ec58a-a0f2-4ac4-8393-c866d813b8d1/app/src/main/java/com/apkforge/app/MainActivity.java''"
    by code_simp
  from t1 some have a: "\<exists>i. pattern_at ?m i ''com.example.foo''" by blast
  from t1 some have b: "packageName ?m = ''com.example.foo''" by blast
  from t1 made(1) have c: "FsOk (WriteFile
        ''/app/temp/110ec58a-a0f2-4ac4-8393-c866d813b8d1/app/src/main/java/com/example/foo/MainActivity.java''
        (Data ?a)) \<in> set (fst (createAndroidProject demo_world ?pd (Str ?m) ?a ?l ?n))"
    unfolding p1 by blast
  from t1 some have d: "sublist ''com/example/foo''
        ''/app/temp/110ec58a-a0f2-4ac4-8393-c866d813b8d1/app/src/main/java/com/example/foo/MainActivity.java''"
    unfolding p1 by blast
  from t2 none have e: "packageName ''<manifest/>'' = ''com.apkforge.app''" by blast
  from t2 made(2) have f: "FsOk (WriteFile
        ''/app/temp/110ec58a-a0f2-4ac4-8393-c866d813b8d1/app/src/main/java/com/apkforge/app/MainActivity.java''
        (Data ?a)) \<in> set (fst (createAndroidProject demo_world ?pd (Str ''<manifest/>'') ?a ?l ?n))"
    unfolding p2 by blast
  from some a b c d none e f show ?thesis by blast
qed

text \<open>
  The manifest \<open><manifest package="../../x">\<close> does not lead out of the workspace, and no
  manifest does: the dots of the identifier have all become separators, so its path is
  \<open>//////x\<close>, which \<open>path.join\<close> collapses to the single segment \<open>x\<close>.
\<close>

theorem traversal_counterexample:
  \<open>(\<not> (\<exists>projectDir manifest. \<not> under_dir projectDir (mainActivityPath projectDir manifest)))
   \<and> packagePath ''<manifest package="../../x">'' = ''//////x''
   \<and> mainActivityPath ''/app/temp/110ec58a-a0f2-4ac4-8393-c866d813b8d1''
         ''<manifest package="../../x">''
       = ''/app/temp/110ec58a-a0f2-4ac4-8393-c866d813b8d1/app/src/main/java/x/MainActivity.java''\<close>
proof (intro conjI)
  show "\<not> (\<exists>projectDir manifest. \<not> under_dir projectDir (mainActivityPath projectDir manifest))"
    by (simp add: mainActivityPath_under)
  show \<open>packagePath ''<manifest package="../../x">'' = ''//////x''\<close>
    by code_simp
  show \<open>mainActivityPath ''/app/temp/110ec58a-a0f2-4ac4-8393-c866d813b8d1''
         ''<manifest package="../../x">''
       = ''/app/temp/110ec58a-a0f2-4ac4-8393-c866d813b8d1/app/src/main/java/x/MainActivity.java''\<close>
    by code_simp
qed

text \<open>
  C10, as the code has it. For every manifest and every workspace directory, the path the
  main source file is written to lies under the workspace directory: the package path
  contains no dot, so no segment of the joined path is \<open>..\<close>.
\<close>

theorem source_path_stays_in_workspace:
  "under_dir projectDir (mainActivityPath projectDir manifest)
   \<and> CHR ''.'' \<notin> set (packagePath manifest)
   \<and> ''..'' \<notin> set (split_path (''app/src/main/java/'' @ packagePath manifest @ ''/MainActivity.java''))
   \<and> WriteFile (mainActivityPath projectDir manifest) (Data mainActivity)
        \<in> set (project_calls projectDir manifest mainActivity layout appName)"
proof (intro conjI)
  show "under_dir projectDir (mainActivityPath projectDir manifest)"
    by (rule mainActivityPath_under)
  show "CHR ''.'' \<notin> set (packagePath manifest)"
    unfolding packagePath_def by (rule replace_dots_no_dot)
  show "''..'' \<notin> set (split_path (''app/src/main/java/'' @ packagePath manifest @ ''/MainActivity.java''))"
    unfolding packagePath_def by (rule main_source_rel_clean)
  show "WriteFile (mainActivityPath projectDir manifest) (Data mainActivity)
          \<in> set (project_calls projectDir manifest mainActivity layout appName)"
    by (simp add: project_calls_def)
qed

theorem source_path_stays_in_workspace_witness:
  \<open>under_dir ''/app/temp/110ec58a-a0f2-4ac4-8393-c866d813b8d1''
     (mainActivityPath ''/app/temp/110ec58a-a0f2-4ac4-8393-c866d813b8d1''
        ''<manifest package="../../x">'')\<close>
  using source_path_stays_in_workspace
    [of "''/app/temp/110ec58a-a0f2-4ac4-8393-c866d813b8d1''" \<open>''<manifest package="../../x">''\<close>]
  by simp

subsection \<open>Materialisation\<close>

text \<open>
  C4. For a request that passes validation, \<open>createAndroidProject\<close> makes these calls, in
  this order: the nine directories, then the manifest, the main-activity source and the
  layout as they were supplied, \<open>strings.xml\<close>, the two \<open>build.gradle\<close> files,
  \<open>gradle.properties\<close>, \<open>settings.gradle\<close>, and the placeholder icon in each of the five
  \<open>mipmap\<close> directories. The main-activity source goes to
  \<open>app/src/main/java/\<close>, the package path and \<open>/MainActivity.java\<close>, the package path being
  the identifier of the manifest (or \<open>com.apkforge.app\<close>) with every dot replaced by \<open>/\<close>.
  When the stage succeeds every one of the calls has succeeded, and the handler's effects
  begin with all of them, followed by those of \<open>compileAPK\<close>; none of them is an effect of
  the invoker. When the stage fails, its effects are the calls before the first failing
  one, all of which succeeded, and that failing call, with whose error the stage fails;
  the handler goes on with the \<open>catch\<close> block, and no effect of the invoker occurs at all.
  A failing call among them always makes the stage fail.
\<close>

theorem workspace_materialized_first:
  assumes "\<not> falsy (body ''manifest'')" "\<not> falsy (body ''mainActivity'')"
    "\<not> falsy (body ''layout'')"
    and m: "body ''manifest'' = Str m"
    and pd: "pd = projectDir_of w"
    and calls: "calls = project_calls pd m (body ''mainActivity'') (body ''layout'') (appName_of body)"
    and made: "made = createAndroidProject w pd (body ''manifest'') (body ''mainActivity'')
                        (body ''layout'') (appName_of body)"
  shows "packagePath m
           = map (\<lambda>c. if c = CHR ''.'' then CHR ''/'' else c)
               (case match_package m of Some p \<Rightarrow> p | None \<Rightarrow> ''com.apkforge.app'')
       \<and> calls =
           [EnsureDir (path_join [pd, ''app/src/main/java/'' @ packagePath m]),
            EnsureDir (path_join [pd, ''app/src/main/res/layout'']),
            EnsureDir (path_join [pd, ''app/src/main/res/values'']),
            EnsureDir (path_join [pd, ''app/src/main/res/drawable'']),
            EnsureDir (path_join [pd, ''app/src/main/res/mipmap-hdpi'']),
            EnsureDir (path_join [pd, ''app/src/main/res/mipmap-mdpi'']),
            EnsureDir (path_join [pd, ''app/src/main/res/mipmap-xhdpi'']),
            EnsureDir (path_join [pd, ''app/src/main/res/mipmap-xxhdpi'']),
            EnsureDir (path_join [pd, ''app/src/main/res/mipmap-xxxhdpi'']),
            WriteFile (path_join [pd, ''app/src/main/AndroidManifest.xml'']) (Data (Str m)),
            WriteFile (path_join [pd, ''app/src/main/java/'' @ packagePath m @ ''/MainActivity.java''])
              (Data (body ''mainActivity'')),
            WriteFile (path_join [pd, ''app/src/main/res/layout/activity_main.xml''])
              (Data (body ''layout'')),
            WriteFile (path_join [pd, ''app/src/main/res/values/strings.xml''])
              (Data (Str (stringsXml (appName_of body)))),
            WriteFile (path_join [pd, ''build.gradle'']) (Data (Str projectBuildGradle)),
            WriteFile (path_join [pd, ''app/build.gradle''])
              (Data (Str (appBuildGradle (packageName m)))),
            WriteFile (path_join [pd, ''gradle.properties'']) (Data (Str gradleProperties)),
            WriteFile (path_join [pd, ''settings.gradle''])
              (Data (Str (settingsGradle (appName_of body)))),
            WriteFile (path_join [pd, ''app/src/main/res/mipmap-hdpi/ic_launcher.png''])
              (Buffer_base64 icon_base64),
            WriteFile (path_join [pd, ''app/src/main/res/mipmap-mdpi/ic_launcher.png''])
              (Buffer_base64 icon_base64),
            WriteFile (path_join [pd, ''app/src/main/res/mipmap-xhdpi/ic_launcher.png''])
              (Buffer_base64 icon_base64),
            WriteFile (path_join [pd, ''app/src/main/res/mipmap-xxhdpi/ic_launcher.png''])
              (Buffer_base64 icon_base64),
            WriteFile (path_join [pd, ''app/src/main/res/mipmap-xxxhdpi/ic_launcher.png''])
              (Buffer_base64 icon_base64)]
       \<and> (snd made = Inr () \<longrightarrow>
            fst made = map FsOk calls
            \<and> (\<forall>c \<in> set calls. fs_error w c = None)
            \<and> (\<exists>rest. post_compile_apk w body
                  = map FsOk calls @ fst (compileAPK w pd (appName_of body)) @ rest)
            \<and> \<not> list_ex is_invoker (map FsOk calls))
       \<and> (\<forall>e. snd made = Inl e \<longrightarrow>
            post_compile_apk w body = fst made @ catch_block w pd e
            \<and> \<not> list_ex is_invoker (post_compile_apk w body)
            \<and> (\<exists>c \<in> set calls. fs_error w c = Some e)
            \<and> (\<exists>before c after. calls = before @ c # after
                  \<and> fst made = map FsOk before @ [FsFailed c e]
                  \<and> fs_error w c = Some e \<and> (\<forall>d \<in> set before. fs_error w d = None)))
       \<and> (\<forall>c e. c \<in> set calls \<and> fs_error w c = Some e \<longrightarrow> (\<exists>e'. snd made = Inl e'))"
proof -
  have run: "made = run_fs w calls" unfolding made calls m by simp
  have 1: "calls = project_calls pd m (body ''mainActivity'') (body ''layout'') (appName_of body)"
    by (rule calls)
  have 2: "snd made = Inr () \<longrightarrow>
            fst made = map FsOk calls
            \<and> (\<forall>c \<in> set calls. fs_error w c = None)
            \<and> (\<exists>rest. post_compile_apk w body
                  = map FsOk calls @ fst (compileAPK w pd (appName_of body)) @ rest)
            \<and> \<not> list_ex is_invoker (map FsOk calls)"
  proof
    assume ok: "snd made = Inr ()"
    then have r: "run_fs w calls = (fst made, Inr ())" using run by (simp add: prod_eq_iff)
    note fs = run_fs_Inr [OF r]
    from fs have fm: "fst made = map FsOk calls" by (rule conjunct1)
    from ok fm have "createAndroidProject w (projectDir_of w) (body ''manifest'')
        (body ''mainActivity'') (body ''layout'') (appName_of body) = (map FsOk calls, Inr ())"
      unfolding made pd by (simp add: prod_eq_iff)
    with assms(1,2,3) have "\<exists>rest. post_compile_apk w body
           = map FsOk calls @ fst (compileAPK w (projectDir_of w) (appName_of body)) @ rest"
      by (rule handler_made_ok)
    moreover have "\<not> list_ex is_invoker (map FsOk calls)"
      unfolding calls by (rule project_calls_quiet)
    ultimately show "fst made = map FsOk calls
            \<and> (\<forall>c \<in> set calls. fs_error w c = None)
            \<and> (\<exists>rest. post_compile_apk w body
                  = map FsOk calls @ fst (compileAPK w pd (appName_of body)) @ rest)
            \<and> \<not> list_ex is_invoker (map FsOk calls)"
      using fs unfolding pd by blast
  qed
  have 3: "\<forall>e. snd made = Inl e \<longrightarrow>
            post_compile_apk w body = fst made @ catch_block w pd e
            \<and> \<not> list_ex is_invoker (post_compile_apk w body)
            \<and> (\<exists>c \<in> set calls. fs_error w c = Some e)
            \<and> (\<exists>before c after. calls = before @ c # after
                  \<and> fst made = map FsOk before @ [FsFailed c e]
                  \<and> fs_error w c = Some e \<and> (\<forall>d \<in> set before. fs_error w d = None))"
  proof (intro allI impI)
    fix e assume bad: "snd made = Inl e"
    then have r: "run_fs w calls = (fst made, Inl e)" using run by (simp add: prod_eq_iff)
    from bad have "createAndroidProject w (projectDir_of w) (body ''manifest'')
        (body ''mainActivity'') (body ''layout'') (appName_of body) = (fst made, Inl e)"
      unfolding made pd by (simp add: prod_eq_iff)
    with assms(1,2,3) have post: "post_compile_apk w body
        = fst made @ catch_block w (projectDir_of w) e"
      by (rule handler_made_failed)
    have "\<forall>ev \<in> set (fst made). \<not> is_invoker ev"
      unfolding made using createAndroidProject_events by blast
    moreover have "\<forall>ev \<in> set (catch_block w (projectDir_of w) e). \<not> is_invoker ev"
      using catch_block_events by blast
    ultimately have "\<not> list_ex is_invoker (post_compile_apk w body)"
      unfolding post list_ex_iff by auto
    moreover from run_fs_Inl [OF r] have "\<exists>c \<in> set calls. fs_error w c = Some e" by auto
    moreover note run_fs_Inl [OF r]
    ultimately show "post_compile_apk w body = fst made @ catch_block w pd e
            \<and> \<not> list_ex is_invoker (post_compile_apk w body)
            \<and> (\<exists>c \<in> set calls. fs_error w c = Some e)
            \<and> (\<exists>before c after. calls = before @ c # after
                  \<and> fst made = map FsOk before @ [FsFailed c e]
                  \<and> fs_error w c = Some e \<and> (\<forall>d \<in> set before. fs_error w d = None))"
      using post unfolding pd by blast
  qed
  have 4: "\<forall>c e. c \<in> set calls \<and> fs_error w c = Some e \<longrightarrow> (\<exists>e'. snd made = Inl e')"
    unfolding run using run_fs_fails [of _ calls w] by blast
  have 0: "packagePath m
           = map (\<lambda>c. if c = CHR ''.'' then CHR ''/'' else c)
               (case match_package m of Some p \<Rightarrow> p | None \<Rightarrow> ''com.apkforge.app'')"
    by (simp add: packagePath_def replace_dots_def packageName_def)
  from 0 2 3 4 show ?thesis
    unfolding project_calls_explicit [of pd m "body ''mainActivity''" "body ''layout''"
        "appName_of body", folded calls, symmetric]
    by blast
qed

theorem workspace_materialized_first_witness:
  \<open>(\<exists>rest. post_compile_apk demo_world demo_body
       = map FsOk (project_calls (projectDir_of demo_world) ''<manifest package="com.example.foo"/>''
                     (Str ''class MainActivity {}'') (Str ''<LinearLayout/>'') (Str ''DemoApp''))
         @ fst (compileAPK demo_world (projectDir_of demo_world) (Str ''DemoApp'')) @ rest)
   \<and> length (project_calls (projectDir_of demo_world) ''<manifest package="com.example.foo"/>''
                (Str ''class MainActivity {}'') (Str ''<LinearLayout/>'') (Str ''DemoApp'')) = 22
   \<and> \<not> list_ex is_invoker
        (post_compile_apk
           (demo_world\<lparr>fs_error :=
              (\<lambda>c. case c of WriteFile p d \<Rightarrow> Some ''ENOSPC: no space left on device''
                            | _ \<Rightarrow> None)\<rparr>)
           demo_body)
   \<and> (\<exists>before c after.
        project_calls
          (projectDir_of
             (demo_world\<lparr>fs_error :=
                (\<lambda>c. case c of WriteFile p d \<Rightarrow> Some ''ENOSPC: no space left on device''
                              | _ \<Rightarrow> None)\<rparr>))
          ''<manifest package="com.example.foo"/>''
          (demo_body ''mainActivity'') (demo_body ''layout'') (appName_of demo_body)
          = before @ c # after
        \<and> fst (createAndroidProject
                 (demo_world\<lparr>fs_error :=
                    (\<lambda>c. case c of WriteFile p d \<Rightarrow> Some ''ENOSPC: no space left on device''
                                  | _ \<Rightarrow> None)\<rparr>)
                 (projectDir_of
                    (demo_world\<lparr>fs_error :=
                       (\<lambda>c. case c of WriteFile p d \<Rightarrow> Some ''ENOSPC: no space left on device''
                                     | _ \<Rightarrow> None)\<rparr>))
                 (demo_body ''manifest'') (demo_body ''mainActivity'') (demo_body ''layout'')
                 (appName_of demo_body))
          = map FsOk before @ [FsFailed c ''ENOSPC: no space left on device''])\<close>
proof -
  let ?v = "demo_world\<lparr>fs_error :=
              (\<lambda>c. case c of WriteFile p d \<Rightarrow> Some ''ENOSPC: no space left on device''
                            | _ \<Rightarrow> None)\<rparr>"
  let ?calls = \<open>project_calls (projectDir_of demo_world) ''<manifest package="com.example.foo"/>''
                     (Str ''class MainActivity {}'') (Str ''<LinearLayout/>'') (Str ''DemoApp'')\<close>
  have valid: "\<not> falsy (demo_body ''manifest'')" "\<not> falsy (demo_body ''mainActivity'')"
    "\<not> falsy (demo_body ''layout'')"
    by (simp_all add: demo_body_def)
  have m: \<open>demo_body ''manifest'' = Str ''<manifest package="com.example.foo"/>''\<close>
    by (simp add: demo_body_def)
  have fields: "demo_body ''mainActivity'' = Str ''class MainActivity {}''"
    "demo_body ''layout'' = Str ''<LinearLayout/>''" "appName_of demo_body = Str ''DemoApp''"
    by (simp_all add: demo_body_def appName_of_def)
  have ok: "\<forall>c. fs_error demo_world c = None" by (simp add: demo_world_def)
  have made: "snd (createAndroidProject demo_world (projectDir_of demo_world) (demo_body ''manifest'')
                     (demo_body ''mainActivity'') (demo_body ''layout'') (appName_of demo_body))
                = Inr ()"
    using createAndroidProject_ok [OF ok] by (simp add: m)
  have broken: "snd (createAndroidProject ?v (projectDir_of ?v) (demo_body ''manifest'')
                     (demo_body ''mainActivity'') (demo_body ''layout'') (appName_of demo_body))
                = Inl ''ENOSPC: no space left on device''"
    by (simp add: m project_calls_explicit)
  note good = workspace_materialized_first [OF valid m refl refl refl, of demo_world]
  note bad = workspace_materialized_first [OF valid m refl refl refl, of ?v]
  from good made have a: "\<exists>rest. post_compile_apk demo_world demo_body = map FsOk ?calls
         @ fst (compileAPK demo_world (projectDir_of demo_world) (Str ''DemoApp'')) @ rest"
    unfolding fields by blast
  have b: "length ?calls = 22"
    using good unfolding fields by (simp add: project_calls_explicit)
  from bad broken have c: "\<not> list_ex is_invoker (post_compile_apk ?v demo_body)"
    by blast
  from bad broken have d: \<open>\<exists>before c after.
        project_calls (projectDir_of ?v) ''<manifest package="com.example.foo"/>''
          (demo_body ''mainActivity'') (demo_body ''layout'') (appName_of demo_body)
          = before @ c # after
        \<and> fst (createAndroidProject ?v (projectDir_of ?v)
                 (demo_body ''manifest'') (demo_body ''mainActivity'') (demo_body ''layout'')
                 (appName_of demo_body))
          = map FsOk before @ [FsFailed c ''ENOSPC: no space left on device'']\<close>
    by blast
  from a b c d show ?thesis by blast
qed

subsection \<open>The download of the wrapper binary\<close>

text \<open>
  C5 does not hold of the code. The claim: the fetch follows 301 and 302 responses through
  the Location header for a bounded number of hops and then ends, in a download or in a
  failure. A 301 or 302 whose Location has no scheme (a relative reference such as
  \<open>/next\<close>, which HTTP allows) is followed by calling \<open>client.get\<close> on that text; the call
  throws inside the response callback of the request before it, where nothing catches it.
  The fetch has then made two requests and its promise is neither resolved nor rejected:
  there is no download, no \<open>Too many redirects\<close> and no other failure.
\<close>

theorem relative_redirect_never_settles:
  assumes "n < 5" and "client_get w n url = Response st loc s" and "st = 301 \<or> st = 302"
    and "\<not> falsy loc" and "CHR '':'' \<notin> set (template loc)"
  shows "downloadFile w jar url n =
           ([HttpGet (client_for url) url,
             ConsoleLog [''Following redirect to: '' @ template loc],
             HttpGet (client_for (template loc)) (template loc),
             UncaughtException (invalid_url w (template loc))], None)
       \<and> (\<forall>e. snd (downloadFile w jar url n) \<noteq> Some (Inl e))
       \<and> snd (downloadFile w jar url n) \<noteq> Some (Inr ())
       \<and> length (filter is_get (fst (downloadFile w jar url n))) = 2"
  unfolding downloadFile_relative_redirect [OF assms] by simp

theorem relative_redirect_never_settles_witness:
  "downloadFile (demo_world\<lparr>http_get := (\<lambda>n url. Response 302 (Str ''/next'') Finish)\<rparr>)
     ''/w/gradle/wrapper/gradle-wrapper.jar''
     ''https://github.com/gradle/gradle/raw/v8.2.1/gradle/wrapper/gradle-wrapper.jar'' 0
   = ([HttpGet Https
         ''https://github.com/gradle/gradle/raw/v8.2.1/gradle/wrapper/gradle-wrapper.jar'',
       ConsoleLog [''Following redirect to: /next''],
       HttpGet Http ''/next'',
       UncaughtException ''Invalid URL: /next''], None)"
proof -
  let ?w = "demo_world\<lparr>http_get := (\<lambda>n url. Response 302 (Str ''/next'') Finish)\<rparr>"
  let ?url = "''https://github.com/gradle/gradle/raw/v8.2.1/gradle/wrapper/gradle-wrapper.jar''"
  have get: "client_get ?w 0 ?url = Response 302 (Str ''/next'') Finish"
    by (simp add: client_get_def)
  have a: "client_for ?url = Https" by (simp add: client_for_def)
  have b: "client_for ''/next'' = Http" by (simp add: client_for_def)
  have c: "invalid_url demo_world ''/next'' = ''Invalid URL: /next''"
    by (simp add: demo_world_def)
  have "downloadFile ?w ''/w/gradle/wrapper/gradle-wrapper.jar'' ?url 0 =
           ([HttpGet (client_for ?url) ?url,
             ConsoleLog [''Following redirect to: '' @ template (Str ''/next'')],
             HttpGet (client_for (template (Str ''/next''))) (template (Str ''/next'')),
             UncaughtException (invalid_url ?w (template (Str ''/next'')))], None)"
    using relative_redirect_never_settles [where w = ?w and n = 0 and url = ?url and st = 302
        and loc = "Str ''/next''" and s = Finish and jar = "''/w/gradle/wrapper/gradle-wrapper.jar''"]
      get
    by simp
  then show ?thesis by (simp add: a b c)
qed

subsection \<open>The build invoker\<close>

text \<open>
  C3. Once the wrapper is set up, the process is spawned, and when it exits its code
  decides: code 0 with the artifact at
  \<open>app/build/outputs/apk/release/app-release-unsigned.apk\<close> resolves with that path; code
  0 without the artifact rejects with \<open>APK file not found after build\<close>; any other code
  rejects with \<open>Gradle build failed with code\<close>, the code, and all the standard-error
  chunks in order.
\<close>

theorem build_outcome:
  assumes "createGradleWrapper w projectDir = (evs, Some (Inr u))"
    and "child w = Exited chunks code"
  shows "(code = Some 0 \<and> existsSync w (apkPath projectDir) \<longrightarrow>
            snd (compileAPK w projectDir appName) = Some (Inr (apkPath projectDir)))
       \<and> (code = Some 0 \<and> \<not> existsSync w (apkPath projectDir) \<longrightarrow>
            snd (compileAPK w projectDir appName) = Some (Inl ''APK file not found after build''))
       \<and> (code \<noteq> Some 0 \<longrightarrow>
            snd (compileAPK w projectDir appName)
              = Some (Inl (''Gradle build failed with code '' @ show_code code @ '': ''
                           @ errorOutput chunks)))
       \<and> errorOutput chunks
            = concat (map (\<lambda>c. case c of Stdout s \<Rightarrow> [] | Stderr s \<Rightarrow> s) chunks)
       \<and> list_ex is_spawn (fst (compileAPK w projectDir appName))
       \<and> apkPath projectDir
            = path_join [projectDir, ''app/build/outputs/apk/release/app-release-unsigned.apk'']"
  using assms
  by (simp add: compileAPK_def Let_def errorOutput_concat [symmetric] apkPath_def)

theorem build_outcome_witness:
  "snd (compileAPK demo_world ''/w'' (Str ''DemoApp'')) = Some (Inr (apkPath ''/w''))
   \<and> snd (compileAPK (demo_world\<lparr>existsSync := (\<lambda>p. False)\<rparr>) ''/w'' (Str ''DemoApp''))
       = Some (Inl ''APK file not found after build'')
   \<and> snd (compileAPK
            (demo_world\<lparr>child :=
               Exited [Stderr ''duplicate '', Stdout ''x'', Stderr ''resource''] (Some 1)\<rparr>)
            ''/w'' (Str ''DemoApp''))
       = Some (Inl ''Gradle build failed with code 1: duplicate resource'')"
proof -
  let ?w2 = "demo_world\<lparr>existsSync := (\<lambda>p. False)\<rparr>"
  let ?w3 = "demo_world\<lparr>child :=
               Exited [Stderr ''duplicate '', Stdout ''x'', Stderr ''resource''] (Some 1)\<rparr>"
  have 1: "createGradleWrapper demo_world ''/w''
             = (fst (createGradleWrapper demo_world ''/w''), Some (Inr ()))"
    using createGradleWrapper_ok [where w = demo_world and loc = Undefined and projectDir = "''/w''"]
    by (simp add: demo_world_def)
  have 2: "createGradleWrapper ?w2 ''/w'' = (fst (createGradleWrapper ?w2 ''/w''), Some (Inr ()))"
    using createGradleWrapper_ok [where w = ?w2 and loc = Undefined and projectDir = "''/w''"]
    by (simp add: demo_world_def)
  have 3: "createGradleWrapper ?w3 ''/w'' = (fst (createGradleWrapper ?w3 ''/w''), Some (Inr ()))"
    using createGradleWrapper_ok [where w = ?w3 and loc = Undefined and projectDir = "''/w''"]
    by (simp add: demo_world_def)
  have c1: "child demo_world = Exited [Stdout ''BUILD SUCCESSFUL''] (Some 0)"
    by (simp add: demo_world_def)
  have c2: "child ?w2 = Exited [Stdout ''BUILD SUCCESSFUL''] (Some 0)"
    by (simp add: demo_world_def)
  have c3: "child ?w3 = Exited [Stderr ''duplicate '', Stdout ''x'', Stderr ''resource''] (Some 1)"
    by simp
  have code: "show_code (Some 1) = ''1''"
    by (simp add: show_int_def digit_char_def)
  show ?thesis
    using build_outcome [OF 1 c1, of "Str ''DemoApp''"] build_outcome [OF 2 c2, of "Str ''DemoApp''"]
      build_outcome [OF 3 c3, of "Str ''DemoApp''"] code
    by (simp add: demo_world_def)
qed

text \<open>
  C8 does not hold of the code. The claim: any exception of the set-up of the launcher,
  the fetch of the wrapper binary included, makes the invoker reject with the prefix
  \<open>Failed to setup Gradle wrapper: \<close>, and the child process is not spawned. The process
  is indeed not spawned, but the exception that \<open>client.get\<close> throws on a redirect to a
  location without a scheme is thrown in a response callback, outside the \<open>try\<close> block of
  \<open>compileAPK\<close> and outside every promise executor: it is not turned into a rejection, and
  the promise of \<open>compileAPK\<close> never settles. This is the defect of C5, seen from the
  invoker.
\<close>

theorem fetch_exception_not_rejected:
  assumes "\<forall>c \<in> set (wrapper_calls projectDir). fs_error w c = None"
    and "http_get w 0 jarUrl = Response st loc s" and "st = 301 \<or> st = 302"
    and "\<not> falsy loc" and "CHR '':'' \<notin> set (template loc)"
  shows "compileAPK w projectDir appName =
           (map FsOk (wrapper_calls projectDir)
              @ [HttpGet Https jarUrl, ConsoleLog [''Following redirect to: '' @ template loc],
                 HttpGet (client_for (template loc)) (template loc),
                 UncaughtException (invalid_url w (template loc))], None)
       \<and> (\<forall>e. snd (compileAPK w projectDir appName)
                \<noteq> Some (Inl (''Failed to setup Gradle wrapper: '' @ e)))
       \<and> \<not> list_ex is_spawn (fst (compileAPK w projectDir appName))"
proof -
  have "\<forall>ev \<in> set (map FsOk (wrapper_calls projectDir)). \<not> is_spawn ev"
    using wrapper_calls_quiet by blast
  then show ?thesis
    unfolding compileAPK_relative_redirect [OF assms] by (simp add: list_ex_iff)
qed

theorem fetch_exception_not_rejected_witness:
  "snd (compileAPK (demo_world\<lparr>http_get := (\<lambda>n url. Response 302 (Str ''/next'') Finish)\<rparr>)
          ''/w'' (Str ''DemoApp'')) = None
   \<and> last (fst (compileAPK
                  (demo_world\<lparr>http_get := (\<lambda>n url. Response 302 (Str ''/next'') Finish)\<rparr>)
                  ''/w'' (Str ''DemoApp'')))
       = UncaughtException ''Invalid URL: /next''
   \<and> \<not> list_ex is_spawn
        (fst (compileAPK
                (demo_world\<lparr>http_get := (\<lambda>n url. Response 302 (Str ''/next'') Finish)\<rparr>)
                ''/w'' (Str ''DemoApp'')))"
proof -
  let ?w = "demo_world\<lparr>http_get := (\<lambda>n url. Response 302 (Str ''/next'') Finish)\<rparr>"
  have ok: "\<forall>c \<in> set (wrapper_calls ''/w''). fs_error ?w c = None"
    by (simp add: demo_world_def)
  have get: "http_get ?w 0 jarUrl = Response 302 (Str ''/next'') Finish" by simp
  have c: "invalid_url demo_world ''/next'' = ''Invalid URL: /next''"
    by (simp add: demo_world_def)
  have st: "(302::nat) = 301 \<or> (302::nat) = 302" by simp
  have loc: "\<not> falsy (Str ''/next'')" "CHR '':'' \<notin> set (template (Str ''/next''))"
    by simp_all
  note t = fetch_exception_not_rejected [OF ok get st loc, where appName = "Str ''DemoApp''"]
  have eq: "compileAPK ?w ''/w'' (Str ''DemoApp'') =
           (map FsOk (wrapper_calls ''/w'')
              @ [HttpGet Https jarUrl, ConsoleLog [''Following redirect to: /next''],
                 HttpGet (client_for ''/next'') ''/next'',
                 UncaughtException ''Invalid URL: /next''], None)"
    using t c by simp
  have spawn: "\<not> list_ex is_spawn (fst (compileAPK ?w ''/w'' (Str ''DemoApp'')))"
    using t by blast
  from eq have "snd (compileAPK ?w ''/w'' (Str ''DemoApp'')) = None"
    and "last (fst (compileAPK ?w ''/w'' (Str ''DemoApp''))) = UncaughtException ''Invalid URL: /next''"
    by simp_all
  with spawn show ?thesis by blast
qed

subsection \<open>The responses\<close>

text \<open>
  C6 does not hold of the code. The claim: every request that passes validation and then
  fails is answered with status 500 and the body
  \<open>{error: "APK compilation failed", details: message}\<close>, and the removal of the workspace
  is attempted. Two failures of the build stage never reach the \<open>catch\<close> block of the
  handler, because the promise of \<open>compileAPK\<close> never settles: the exception of
  \<open>client.get\<close> on a redirect to a location without a scheme (the defect of C5 and C8),
  and a child process that cannot be started, whose \<open>error\<close> event has no listener. In
  both the handler sends no response and never removes the workspace; the last effect is
  the uncaught exception.
\<close>

theorem unsettled_build_gets_no_response:
  assumes "\<not> falsy (body ''manifest'')" "\<not> falsy (body ''mainActivity'')"
    "\<not> falsy (body ''layout'')"
    and "snd (createAndroidProject w (projectDir_of w) (body ''manifest'') (body ''mainActivity'')
                (body ''layout'') (appName_of body)) = Inr ()"
  shows "(snd (compileAPK w (projectDir_of w) (appName_of body)) = None \<longrightarrow>
            filter is_respond (post_compile_apk w body) = []
            \<and> filter is_cleanup (post_compile_apk w body) = [])
       \<and> ((\<exists>evs u. createGradleWrapper w (projectDir_of w) = (evs, Some (Inr u)))
            \<and> child w = SpawnFailed err \<longrightarrow>
            snd (compileAPK w (projectDir_of w) (appName_of body)) = None
            \<and> last (post_compile_apk w body) = UncaughtException err)
       \<and> ((\<forall>c \<in> set (wrapper_calls (projectDir_of w)). fs_error w c = None)
            \<and> http_get w 0 jarUrl = Response st loc s \<and> (st = 301 \<or> st = 302)
            \<and> \<not> falsy loc \<and> CHR '':'' \<notin> set (template loc) \<longrightarrow>
            snd (compileAPK w (projectDir_of w) (appName_of body)) = None
            \<and> last (post_compile_apk w body) = UncaughtException (invalid_url w (template loc)))"
proof -
  let ?made = "createAndroidProject w (projectDir_of w) (body ''manifest'')
                 (body ''mainActivity'') (body ''layout'') (appName_of body)"
  let ?build = "compileAPK w (projectDir_of w) (appName_of body)"
  have trace: "post_compile_apk w body = fst ?made @ fst ?build" if "snd ?build = None"
    using assms that by (rule handler_unsettled_trace)
  have 1: "snd ?build = None \<longrightarrow>
            filter is_respond (post_compile_apk w body) = []
            \<and> filter is_cleanup (post_compile_apk w body) = []"
  proof
    assume none: "snd ?build = None"
    have "\<forall>ev \<in> set (fst ?made @ fst ?build). \<not> is_respond ev \<and> \<not> is_cleanup ev"
      using createAndroidProject_events compileAPK_events by fastforce
    then show "filter is_respond (post_compile_apk w body) = []
            \<and> filter is_cleanup (post_compile_apk w body) = []"
      unfolding trace [OF none] by (simp add: filter_empty_conv)
  qed
  have 2: "(\<exists>evs u. createGradleWrapper w (projectDir_of w) = (evs, Some (Inr u)))
            \<and> child w = SpawnFailed err \<longrightarrow>
            snd ?build = None \<and> last (post_compile_apk w body) = UncaughtException err"
  proof
    assume a: "(\<exists>evs u. createGradleWrapper w (projectDir_of w) = (evs, Some (Inr u)))
            \<and> child w = SpawnFailed err"
    then obtain evs u where cw: "createGradleWrapper w (projectDir_of w) = (evs, Some (Inr u))"
      and ch: "child w = SpawnFailed err" by blast
    note eq = compileAPK_spawn_failed [OF cw ch, of "appName_of body"]
    then have none: "snd ?build = None" by simp
    show "snd ?build = None \<and> last (post_compile_apk w body) = UncaughtException err"
      unfolding trace [OF none] using eq by simp
  qed
  have 3: "(\<forall>c \<in> set (wrapper_calls (projectDir_of w)). fs_error w c = None)
            \<and> http_get w 0 jarUrl = Response st loc s \<and> (st = 301 \<or> st = 302)
            \<and> \<not> falsy loc \<and> CHR '':'' \<notin> set (template loc) \<longrightarrow>
            snd ?build = None
            \<and> last (post_compile_apk w body) = UncaughtException (invalid_url w (template loc))"
  proof
    assume a: "(\<forall>c \<in> set (wrapper_calls (projectDir_of w)). fs_error w c = None)
            \<and> http_get w 0 jarUrl = Response st loc s \<and> (st = 301 \<or> st = 302)
            \<and> \<not> falsy loc \<and> CHR '':'' \<notin> set (template loc)"
    then have eq: "?build =
           (map FsOk (wrapper_calls (projectDir_of w))
              @ [HttpGet Https jarUrl, ConsoleLog [''Following redirect to: '' @ template loc],
                 HttpGet (client_for (template loc)) (template loc),
                 UncaughtException (invalid_url w (template loc))], None)"
      by (intro compileAPK_relative_redirect) blast+
    then have none: "snd ?build = None" by simp
    show "snd ?build = None
            \<and> last (post_compile_apk w body) = UncaughtException (invalid_url w (template loc))"
      unfolding trace [OF none] using eq by simp
  qed
  from 1 2 3 show ?thesis by blast
qed

theorem unsettled_build_gets_no_response_witness:
  "filter is_respond
     (post_compile_apk (demo_world\<lparr>child := SpawnFailed ''spawn ./gradlew EACCES''\<rparr>) demo_body)
     = []
   \<and> filter is_cleanup
     (post_compile_apk (demo_world\<lparr>child := SpawnFailed ''spawn ./gradlew EACCES''\<rparr>) demo_body)
     = []
   \<and> last (post_compile_apk (demo_world\<lparr>child := SpawnFailed ''spawn ./gradlew EACCES''\<rparr>)
             demo_body)
     = UncaughtException ''spawn ./gradlew EACCES''
   \<and> filter is_respond
     (post_compile_apk
        (demo_world\<lparr>http_get := (\<lambda>n url. Response 302 (Str ''/next'') Finish)\<rparr>) demo_body)
     = []
   \<and> filter is_cleanup
     (post_compile_apk
        (demo_world\<lparr>http_get := (\<lambda>n url. Response 302 (Str ''/next'') Finish)\<rparr>) demo_body)
     = []
   \<and> last (post_compile_apk
             (demo_world\<lparr>http_get := (\<lambda>n url. Response 302 (Str ''/next'') Finish)\<rparr>)
             demo_body)
     = UncaughtException ''Invalid URL: /next''"
proof -
  let ?v = "demo_world\<lparr>child := SpawnFailed ''spawn ./gradlew EACCES''\<rparr>"
  let ?w = "demo_world\<lparr>http_get := (\<lambda>n url. Response 302 (Str ''/next'') Finish)\<rparr>"
  have valid: "\<not> falsy (demo_body ''manifest'')" "\<not> falsy (demo_body ''mainActivity'')"
    "\<not> falsy (demo_body ''layout'')"
    by (simp_all add: demo_body_def)
  have okv: "\<forall>c. fs_error ?v c = None" and okw: "\<forall>c. fs_error ?w c = None"
    by (simp_all add: demo_world_def)
  have madev: "snd (createAndroidProject ?v (projectDir_of ?v) (demo_body ''manifest'')
                     (demo_body ''mainActivity'') (demo_body ''layout'') (appName_of demo_body))
                = Inr ()"
    using createAndroidProject_ok [OF okv] by (simp add: demo_body_def)
  have madew: "snd (createAndroidProject ?w (projectDir_of ?w) (demo_body ''manifest'')
                     (demo_body ''mainActivity'') (demo_body ''layout'') (appName_of demo_body))
                = Inr ()"
    using createAndroidProject_ok [OF okw] by (simp add: demo_body_def)
  have getv: "http_get ?v 0 jarUrl = Response 200 Undefined Finish" by (simp add: demo_world_def)
  have wrapped: "\<exists>evs u. createGradleWrapper ?v (projectDir_of ?v) = (evs, Some (Inr u))"
    using createGradleWrapper_ok [OF okv getv] by blast
  have ch: "child ?v = SpawnFailed ''spawn ./gradlew EACCES''" by simp
  have getw: "http_get ?w 0 jarUrl = Response 302 (Str ''/next'') Finish" by simp
  have okw': "\<forall>c \<in> set (wrapper_calls (projectDir_of ?w)). fs_error ?w c = None"
    using okw by blast
  have c: "invalid_url demo_world ''/next'' = ''Invalid URL: /next''"
    by (simp add: demo_world_def)
  note tv = unsettled_build_gets_no_response [OF valid madev,
      where err = "''spawn ./gradlew EACCES''" and st = 302 and loc = "Str ''/next''" and s = Finish]
  note tw = unsettled_build_gets_no_response [OF valid madew,
      where err = "''spawn ./gradlew EACCES''" and st = 302 and loc = "Str ''/next''" and s = Finish]
  from tv wrapped ch have v1: "snd (compileAPK ?v (projectDir_of ?v) (appName_of demo_body)) = None"
    and v2: "last (post_compile_apk ?v demo_body) = UncaughtException ''spawn ./gradlew EACCES''"
    by blast+
  from tv v1 have v3: "filter is_respond (post_compile_apk ?v demo_body) = []"
    and v4: "filter is_cleanup (post_compile_apk ?v demo_body) = []"
    by blast+
  have prem: "(\<forall>c \<in> set (wrapper_calls (projectDir_of ?w)). fs_error ?w c = None)
            \<and> http_get ?w 0 jarUrl = Response 302 (Str ''/next'') Finish
            \<and> ((302::nat) = 301 \<or> (302::nat) = 302)
            \<and> \<not> falsy (Str ''/next'') \<and> CHR '':'' \<notin> set (template (Str ''/next''))"
    using okw' getw by simp
  from tw prem have w1: "snd (compileAPK ?w (projectDir_of ?w) (appName_of demo_body)) = None"
    and w2: "last (post_compile_apk ?w demo_body)
               = UncaughtException (invalid_url ?w (template (Str ''/next'')))"
    by blast+
  from tw w1 have w3: "filter is_respond (post_compile_apk ?w demo_body) = []"
    and w4: "filter is_cleanup (post_compile_apk ?w demo_body) = []"
    by blast+
  from w2 c have w2': "last (post_compile_apk ?w demo_body) = UncaughtException ''Invalid URL: /next''"
    by simp
  from v3 v4 v2 w3 w4 w2' show ?thesis by blast
qed




text \<open>
  C9. With \<open>appName\<close> present and empty the default is not applied (it is for an absent
  field): the name is the empty string. \<open>strings.xml\<close> is written with an empty
  \<open>app_name\<close> and \<open>settings.gradle\<close> with \<open>rootProject.name = ""\<close>, and when the build
  succeeds the download is named \<open>.apk\<close>, which is also the name delivered when the file
  is sent.
\<close>

theorem empty_app_name_kept:
  assumes "\<not> falsy (body ''manifest'')" "\<not> falsy (body ''mainActivity'')"
    "\<not> falsy (body ''layout'')"
    and empty: "body ''appName'' = Str []"
    and m: "body ''manifest'' = Str m"
  shows \<open>appName_of body = Str []
       \<and> appName_of (body(''appName'' := Undefined)) = Str ''GeneratedApp''
       \<and> WriteFile (path_join [pd, ''app/src/main/res/values/strings.xml''])
            (Data (Str (stringsXml (Str []))))
          \<in> set (project_calls pd m (body ''mainActivity'') (body ''layout'') (appName_of body))
       \<and> WriteFile (path_join [pd, ''settings.gradle'']) (Data (Str (settingsGradle (Str []))))
          \<in> set (project_calls pd m (body ''mainActivity'') (body ''layout'') (appName_of body))
       \<and> stringsXml (Str []) =
          ''<?xml version="1.0" encoding="utf-8"?>\<newline>'' @
     ''<resources>\<newline>'' @
     ''    <string name="app_name"></string>\<newline>'' @
     ''</resources>''
       \<and> settingsGradle (Str []) =
          ''pluginManagement {\<newline>'' @
     ''    repositories {\<newline>'' @
     ''        google()\<newline>'' @
     ''        mavenCentral()\<newline>'' @
     ''        gradlePluginPortal()\<newline>'' @
     ''    }\<newline>'' @
     ''}\<newline>'' @
     ''dependencyResolutionManagement {\<newline>'' @
     ''    repositoriesMode.set(RepositoriesMode.FAIL_ON_PROJECT_REPOS)\<newline>'' @
     ''    repositories {\<newline>'' @
     ''        google()\<newline>'' @
     ''        mavenCentral()\<newline>'' @
     ''    }\<newline>'' @
     ''}\<newline>'' @
     ''rootProject.name = ""\<newline>'' @
     ''include ':app'' @ [CHR 0x27]
       \<and> (snd (createAndroidProject w (projectDir_of w) (body ''manifest'') (body ''mainActivity'')
                 (body ''layout'') (appName_of body)) = Inr ()
           \<and> snd (compileAPK w (projectDir_of w) (appName_of body)) = Some (Inr apk) \<longrightarrow>
             filter is_respond (post_compile_apk w body) = [Respond (Download apk ''.apk'')]
             \<and> (\<forall>bytes. sendFile w apk = Inr bytes \<longrightarrow>
                   deliver w (Download apk ''.apk'')
                     = Some (Delivered 200 (Some ''.apk'') (FileBytes bytes)))
             \<and> FsOk (WriteFile (path_join [projectDir_of w, ''app/src/main/res/values/strings.xml''])
                       (Data (Str (stringsXml (Str [])))))
                \<in> set (post_compile_apk w body)
             \<and> FsOk (WriteFile (path_join [projectDir_of w, ''settings.gradle''])
                       (Data (Str (settingsGradle (Str [])))))
                \<in> set (post_compile_apk w body))\<close>
proof -
  have name: "appName_of body = Str []" using empty by (simp add: appName_of_def)
  have dflt: "appName_of (body(''appName'' := Undefined)) = Str ''GeneratedApp''"
    by (simp add: appName_of_def)
  have sx: "WriteFile (path_join [pd, ''app/src/main/res/values/strings.xml''])
            (Data (Str (stringsXml (Str []))))
          \<in> set (project_calls pd m (body ''mainActivity'') (body ''layout'') (appName_of body))"
    for pd
    unfolding name by (simp add: project_calls_def)
  have sg: "WriteFile (path_join [pd, ''settings.gradle'']) (Data (Str (settingsGradle (Str []))))
          \<in> set (project_calls pd m (body ''mainActivity'') (body ''layout'') (appName_of body))"
    for pd
    unfolding name by (simp add: project_calls_def)
  have sxl: \<open>stringsXml (Str []) =
          ''<?xml version="1.0" encoding="utf-8"?>\<newline>'' @
     ''<resources>\<newline>'' @
     ''    <string name="app_name"></string>\<newline>'' @
     ''</resources>''\<close>
    by (simp add: stringsXml_def)
  have sgl: \<open>settingsGradle (Str []) =
          ''pluginManagement {\<newline>'' @
     ''    repositories {\<newline>'' @
     ''        google()\<newline>'' @
     ''        mavenCentral()\<newline>'' @
     ''        gradlePluginPortal()\<newline>'' @
     ''    }\<newline>'' @
     ''}\<newline>'' @
     ''dependencyResolutionManagement {\<newline>'' @
     ''    repositoriesMode.set(RepositoriesMode.FAIL_ON_PROJECT_REPOS)\<newline>'' @
     ''    repositories {\<newline>'' @
     ''        google()\<newline>'' @
     ''        mavenCentral()\<newline>'' @
     ''    }\<newline>'' @
     ''}\<newline>'' @
     ''rootProject.name = ""\<newline>'' @
     ''include ':app'' @ [CHR 0x27]\<close>
    by (simp add: settingsGradle_def)
  have run: "filter is_respond (post_compile_apk w body) = [Respond (Download apk ''.apk'')]
             \<and> (\<forall>bytes. sendFile w apk = Inr bytes \<longrightarrow>
                   deliver w (Download apk ''.apk'')
                     = Some (Delivered 200 (Some ''.apk'') (FileBytes bytes)))
             \<and> FsOk (WriteFile (path_join [projectDir_of w, ''app/src/main/res/values/strings.xml''])
                       (Data (Str (stringsXml (Str [])))))
                \<in> set (post_compile_apk w body)
             \<and> FsOk (WriteFile (path_join [projectDir_of w, ''settings.gradle''])
                       (Data (Str (settingsGradle (Str [])))))
                \<in> set (post_compile_apk w body)"
    if made: "snd (createAndroidProject w (projectDir_of w) (body ''manifest'') (body ''mainActivity'')
                 (body ''layout'') (appName_of body)) = Inr ()"
      and built: "snd (compileAPK w (projectDir_of w) (appName_of body)) = Some (Inr apk)"
  proof -
    let ?calls = "project_calls (projectDir_of w) m (body ''mainActivity'') (body ''layout'')
                    (appName_of body)"
    let ?t = "try_body w (projectDir_of w) (body ''manifest'') (body ''mainActivity'')
              (body ''layout'') (appName_of body)"
    have "snd ?t = Some (Inr apk)" using made built by (rule try_body_success)
    with assms(1,2,3) have post: "post_compile_apk w body
        = fst ?t @ [Respond (Download apk (template (appName_of body) @ ''.apk''))]
          @ download_callback w (projectDir_of w) apk"
      by (rule handler_success)
    have cb: "filter is_respond (download_callback w (projectDir_of w) apk) = []"
      by (rule filter_respond_callback)
    have dl: "\<forall>bytes. sendFile w apk = Inr bytes \<longrightarrow>
                   deliver w (Download apk ''.apk'')
                     = Some (Delivered 200 (Some ''.apk'') (FileBytes bytes))"
    proof -
      have "basename ''.apk'' = ''.apk''" by (rule basename_plain) simp_all
      then show ?thesis by simp
    qed
    have r: "filter is_respond (post_compile_apk w body) = [Respond (Download apk ''.apk'')]"
      unfolding post by (simp add: filter_respond_try_body cb name)
    from made have "run_fs w ?calls = (fst (run_fs w ?calls), Inr ())"
      unfolding m by (simp add: prod_eq_iff)
    then have "fst (run_fs w ?calls) = map FsOk ?calls" using run_fs_Inr by blast
    then have "createAndroidProject w (projectDir_of w) (body ''manifest'') (body ''mainActivity'')
                 (body ''layout'') (appName_of body) = (map FsOk ?calls, Inr ())"
      using made unfolding m by (simp add: prod_eq_iff)
    with assms(1,2,3) obtain rest where "post_compile_apk w body
        = map FsOk ?calls @ fst (compileAPK w (projectDir_of w) (appName_of body)) @ rest"
      using handler_made_ok by blast
    then have "set (map FsOk ?calls) \<subseteq> set (post_compile_apk w body)" by simp
    with sx [of "projectDir_of w"] sg [of "projectDir_of w"] r dl show ?thesis by auto
  qed
  from name dflt sx sg sxl sgl run show ?thesis by blast
qed

theorem empty_app_name_kept_witness:
  "filter is_respond (post_compile_apk demo_world (demo_body(''appName'' := Str [])))
     = [Respond (Download
          ''/app/temp/110ec58a-a0f2-4ac4-8393-c866d813b8d1/app/build/outputs/apk/release/app-release-unsigned.apk''
          ''.apk'')]
   \<and> appName_of (demo_body(''appName'' := Str [])) = Str []
   \<and> deliver demo_world
        (Download
          ''/app/temp/110ec58a-a0f2-4ac4-8393-c866d813b8d1/app/build/outputs/apk/release/app-release-unsigned.apk''
          ''.apk'')
       = Some (Delivered 200 (Some ''.apk'') (FileBytes ''PK-artifact-bytes''))"
proof -
  let ?b = "demo_body(''appName'' := Str [])"
  have valid: "\<not> falsy (?b ''manifest'')" "\<not> falsy (?b ''mainActivity'')"
    "\<not> falsy (?b ''layout'')"
    by (simp_all add: demo_body_def)
  have empty: "?b ''appName'' = Str []" by simp
  have m: \<open>?b ''manifest'' = Str ''<manifest package="com.example.foo"/>''\<close>
    by (simp add: demo_body_def)
  have ok: "\<forall>c. fs_error demo_world c = None" by (simp add: demo_world_def)
  have get: "http_get demo_world 0 jarUrl = Response 200 Undefined Finish"
    by (simp add: demo_world_def)
  have exited: "child demo_world = Exited [Stdout ''BUILD SUCCESSFUL''] (Some 0)"
    by (simp add: demo_world_def)
  have build: "snd (compileAPK demo_world (projectDir_of demo_world) (appName_of ?b))
                 = Some (Inr (apkPath (projectDir_of demo_world)))"
    using compileAPK_built [OF ok get exited] by (simp add: demo_world_def)
  have sent: "sendFile demo_world (apkPath (projectDir_of demo_world)) = Inr ''PK-artifact-bytes''"
    by (simp add: demo_world_def)
  have made: "snd (createAndroidProject demo_world (projectDir_of demo_world) (?b ''manifest'')
                     (?b ''mainActivity'') (?b ''layout'') (appName_of ?b)) = Inr ()"
    unfolding m using createAndroidProject_ok [OF ok] by simp
  have pd: "projectDir_of demo_world = ''/app/temp/110ec58a-a0f2-4ac4-8393-c866d813b8d1''"
    by code_simp
  have apk: "apkPath ''/app/temp/110ec58a-a0f2-4ac4-8393-c866d813b8d1''
      = ''/app/temp/110ec58a-a0f2-4ac4-8393-c866d813b8d1/app/build/outputs/apk/release/app-release-unsigned.apk''"
    by code_simp
  note t = empty_app_name_kept [OF valid empty m,
      where w = demo_world and apk = "apkPath (projectDir_of demo_world)"]
  from t made build have "filter is_respond (post_compile_apk demo_world ?b)
      = [Respond (Download (apkPath (projectDir_of demo_world)) ''.apk'')]" by blast
  moreover from t have "appName_of ?b = Str []" by blast
  moreover from t made build sent have "deliver demo_world
        (Download (apkPath (projectDir_of demo_world)) ''.apk'')
       = Some (Delivered 200 (Some ''.apk'') (FileBytes ''PK-artifact-bytes''))" by blast
  ultimately show ?thesis by (simp only: pd apk)
qed

end
